theory Spec2Isabelle
  imports Complex_Main "HOL-Library.Sublist"
begin

section \<open>Python values and errors\<close>

text \<open>
  The module \<^verbatim>\<open>dattool.py\<close> holds three functions over strings, pandas series and
  pandas data frames. An exception of the source is a value \<open>Inl e\<close> of the result type;
  the exception classes that the three functions can meet are the constructors below.
\<close>

datatype error = IndexError | KeyError | TypeError | ValueError

subsection \<open>String primitives\<close>

text \<open>\<^verbatim>\<open>s.count('_')\<close>: the number of underscores of a string.\<close>

definition count_uscores :: "string \<Rightarrow> nat" where
  "count_uscores s = length (filter (\<lambda>c. c = CHR ''_'') s)"

text \<open>
  \<^verbatim>\<open>s.split('_')\<close>: the pieces between the underscores, empty pieces kept, so a
  string with \<open>k\<close> underscores has \<open>k + 1\<close> pieces.
\<close>

fun split_uscore :: "string \<Rightarrow> string list" where
  "split_uscore [] = [[]]"
| "split_uscore (c # cs) =
     (if c = CHR ''_'' then [] # split_uscore cs
      else (case split_uscore cs of
              [] \<Rightarrow> [[c]]
            | t # ts \<Rightarrow> (c # t) # ts))"

text \<open>\<^verbatim>\<open>p in s\<close> on strings: \<open>p\<close> occurs in \<open>s\<close> as a contiguous piece.\<close>

fun str_in :: "string \<Rightarrow> string \<Rightarrow> bool" where
  "str_in p [] = (p = [])"
| "str_in p (c # cs) = (prefix p (c # cs) \<or> str_in p cs)"

text \<open>\<^verbatim>\<open>xs[i]\<close> for a non-negative \<open>i\<close>: IndexError out of range.\<close>

definition item :: "'a list \<Rightarrow> nat \<Rightarrow> error + 'a" where
  "item xs i = (if i < length xs then Inr (xs ! i) else Inl IndexError)"

text \<open>A list comprehension whose element expression may raise: the first error wins.\<close>

fun comprehension :: "('a \<Rightarrow> error + 'b) \<Rightarrow> 'a list \<Rightarrow> error + 'b list" where
  "comprehension f [] = Inr []"
| "comprehension f (x # xs) =
     (case f x of
        Inl e \<Rightarrow> Inl e
      | Inr y \<Rightarrow> (case comprehension f xs of Inl e \<Rightarrow> Inl e | Inr ys \<Rightarrow> Inr (y # ys)))"

section \<open>The column-name location parser\<close>

text \<open>
  \<^verbatim>\<open>
  meas_uscores = meas.count('_')
  if str_exclude is not None:
      meas_cols = [c for c in cols if meas + '_' in c and str_exclude not in c]
  else:
      meas_cols = [c for c in cols if meas + '_' in c]
  \<close>
\<close>

definition meas_cols :: "string list \<Rightarrow> string \<Rightarrow> string option \<Rightarrow> string list" where
  "meas_cols cols meas str_exclude =
     (case str_exclude of
        Some x \<Rightarrow> filter (\<lambda>c. str_in (meas @ ''_'') c \<and> \<not> str_in x c) cols
      | None \<Rightarrow> filter (\<lambda>c. str_in (meas @ ''_'') c) cols)"

text \<open>
  \<^verbatim>\<open>hv_dict = {meas + '_' + p:[] for p in set(horiz)}\<close>: one empty list for each
  distinct horizontal label. The dictionary is a map, since the order of its keys comes
  from the iteration of a set.
\<close>

definition init_dict :: "string \<Rightarrow> string list \<Rightarrow> (string \<rightharpoonup> string list)" where
  "init_dict meas horiz = map_of (map (\<lambda>p. (meas @ ''_'' @ p, [])) horiz)"

text \<open>
  \<^verbatim>\<open>
  for i, pnum in enumerate(horiz):
      hv_dict[meas + '_' + pnum].append(vert[i])
  \<close>
  The loop walks \<open>horiz\<close> with its position; \<open>vert[i]\<close> and the lookup of the key are the
  two places of the body that can raise.
\<close>

fun fill_dict ::
  "string \<Rightarrow> string list \<Rightarrow> nat \<Rightarrow> string list \<Rightarrow> (string \<rightharpoonup> string list)
     \<Rightarrow> error + (string \<rightharpoonup> string list)" where
  "fill_dict meas vert i [] d = Inr d"
| "fill_dict meas vert i (pnum # rest) d =
     (case d (meas @ ''_'' @ pnum) of
        None \<Rightarrow> Inl KeyError
      | Some vs \<Rightarrow>
          (case item vert i of
             Inl e \<Rightarrow> Inl e
           | Inr v \<Rightarrow> fill_dict meas vert (Suc i) rest (d(meas @ ''_'' @ pnum \<mapsto> vs @ [v]))))"

definition measurement_h_v_dict ::
  "string list \<Rightarrow> string \<Rightarrow> string option \<Rightarrow> error + (string \<rightharpoonup> string list)" where
  "measurement_h_v_dict cols meas str_exclude =
     (let meas_uscores = count_uscores meas;
          mcols = meas_cols cols meas str_exclude
      in case comprehension (\<lambda>n. item (split_uscore n) (1 + meas_uscores)) mcols of
           Inl e \<Rightarrow> Inl e
         | Inr horiz \<Rightarrow>
             (case comprehension (\<lambda>n. item (split_uscore n) (2 + meas_uscores)) mcols of
                Inl e \<Rightarrow> Inl e
              | Inr vert \<Rightarrow> fill_dict meas vert 0 horiz (init_dict meas horiz)))"

section \<open>Series and data frames\<close>

text \<open>
  A floating-point cell is a number or NaN; \<open>None\<close> is NaN. The numbers are reals:
  the functions below test cells for NaN, copy them, and add and divide them, and the
  rounding of the additions and divisions is not part of this model.
\<close>

type_synonym num = "real option"

text \<open>\<^verbatim>\<open>np.isnan\<close> on one cell.\<close>

definition isnan :: "num \<Rightarrow> bool" where
  "isnan v = (v = None)"

text \<open>
  A pandas series: its name (\<open>None\<close> when it has none, as pandas has it) and its
  values, each under its index label. Labels may repeat.
\<close>

record 'i series =
  sname :: "string option"
  sitems :: "('i \<times> num) list"

definition sindex :: "'i series \<Rightarrow> 'i list" where
  "sindex s = map fst (sitems s)"

definition svalues :: "'i series \<Rightarrow> num list" where
  "svalues s = map snd (sitems s)"

text \<open>
  A pandas data frame: the row labels and the columns in their order, each a label with
  one cell for each row. Column labels may repeat.
\<close>

record ('i, 'l, 'c) frame =
  index :: "'i list"
  data :: "('l \<times> 'c list) list"

definition columns :: "('i, 'l, 'c) frame \<Rightarrow> 'l list" where
  "columns f = map fst (data f)"

section \<open>The gap filler\<close>

text \<open>
  The label of a column of the frame \<^verbatim>\<open>pd.DataFrame(s)\<close>: the name of the series, or
  the position \<open>0\<close> when the series has no name. The cells of the result are numbers in
  the fill column and booleans in the flag column.
\<close>

datatype label = Name string | Position nat

datatype cell = Number num | Flag bool

datatype effect =
    Printed string
  | Plotted "string option" "cell list" "num list" "num list"

text \<open>\<^verbatim>\<open>pd.DataFrame(s_withgaps.copy())\<close>\<close>

definition DataFrame_of :: "'i series \<Rightarrow> ('i, label, cell) frame" where
  "DataFrame_of s =
     \<lparr>index = sindex s,
      data = [(case sname s of None \<Rightarrow> Position 0 | Some n \<Rightarrow> Name n,
               map Number (svalues s))]\<rparr>"

text \<open>\<^verbatim>\<open>label + '_gf'\<close>: defined on strings, a TypeError on the integer label.\<close>

definition label_add :: "label \<Rightarrow> string \<Rightarrow> error + label" where
  "label_add l sfx =
     (case l of Name n \<Rightarrow> Inr (Name (n @ sfx)) | Position k \<Rightarrow> Inl TypeError)"

text \<open>\<^verbatim>\<open>f.columns = ls\<close>: a ValueError unless there is one label for each column.\<close>

definition set_columns ::
  "('i, 'l, 'c) frame \<Rightarrow> 'l list \<Rightarrow> error + ('i, 'l, 'c) frame" where
  "set_columns f ls =
     (if length ls = length (data f) then Inr (f\<lparr>data := zip ls (map snd (data f))\<rparr>)
      else Inl ValueError)"

text \<open>
  \<^verbatim>\<open>s[mask]\<close> with a boolean mask over the same index: the items where the mask
  holds, under their labels.
\<close>

definition mask_select :: "bool list \<Rightarrow> 'a list \<Rightarrow> 'a list" where
  "mask_select sel xs = map snd (filter fst (zip sel xs))"

text \<open>Writing the values \<open>vs\<close>, in their order, at the positions where the mask holds.\<close>

fun put_masked :: "bool list \<Rightarrow> 'a list \<Rightarrow> 'a list \<Rightarrow> 'a list" where
  "put_masked (True # m) (x # xs) (v # vs) = v # put_masked m xs vs"
| "put_masked (False # m) (x # xs) vs = x # put_masked m xs vs"
| "put_masked m xs vs = xs"

text \<open>
  \<^verbatim>\<open>f.loc[mask, f.columns] = v\<close> with a series \<open>v\<close> on the right: pandas aligns \<open>v\<close>
  with the masked rows. When the index of \<open>v\<close> equals the labels of the masked rows the
  values are taken in their order; otherwise \<open>v\<close> is reindexed by those labels, which
  needs the labels of \<open>v\<close> distinct and gives NaN for a label that \<open>v\<close> does not have.
\<close>

definition loc_assign ::
  "('i, 'l, cell) frame \<Rightarrow> bool list \<Rightarrow> ('i \<times> num) list \<Rightarrow> error + ('i, 'l, cell) frame" where
  "loc_assign f sel v =
     (let target = mask_select sel (index f) in
      if map fst v = target then
        Inr (f\<lparr>data := map (\<lambda>(l, c). (l, put_masked sel c (map (Number \<circ> snd) v))) (data f)\<rparr>)
      else if \<not> distinct (map fst v) then Inl ValueError
      else
        Inr (f\<lparr>data := map (\<lambda>(l, c). (l, put_masked sel c
               (map (\<lambda>i. Number (case map_of v i of None \<Rightarrow> None | Some x \<Rightarrow> x)) target)))
               (data f)\<rparr>))"

text \<open>
  \<^verbatim>\<open>f[l] = cells\<close> for cells over the index of the frame: the columns that carry the
  label are overwritten, and a label that is new is added as the last column.
\<close>

definition setitem :: "('i, 'l, 'c) frame \<Rightarrow> 'l \<Rightarrow> 'c list \<Rightarrow> ('i, 'l, 'c) frame" where
  "setitem f l cells =
     (if l \<in> set (columns f)
      then f\<lparr>data := map (\<lambda>(k, c). if k = l then (k, cells) else (k, c)) (data f)\<rparr>
      else f\<lparr>data := data f @ [(l, cells)]\<rparr>)"

text \<open>
  The branch of \<^verbatim>\<open>gapfill_series\<close> for equal indices:
  \<^verbatim>\<open>
  gapfill = np.isnan(s_withgaps)
  s_filled.columns = [s_filled.columns[0] + '_gf']
  s_filled.loc[gapfill, s_filled.columns] = s_gapfiller[gapfill]
  s_filled[s_filled.columns[0] + 'FLAG'] = gapfill
  \<close>
\<close>

definition fill_gaps ::
  "('i, label, cell) frame \<Rightarrow> 'i series \<Rightarrow> 'i series \<Rightarrow> error + ('i, label, cell) frame" where
  "fill_gaps s_filled s_withgaps s_gapfiller =
     (let gapfill = map isnan (svalues s_withgaps) in
      case item (columns s_filled) 0 of
        Inl e \<Rightarrow> Inl e
      | Inr c0 \<Rightarrow>
      (case label_add c0 ''_gf'' of
        Inl e \<Rightarrow> Inl e
      | Inr gf \<Rightarrow>
      (case set_columns s_filled [gf] of
        Inl e \<Rightarrow> Inl e
      | Inr f1 \<Rightarrow>
      (case loc_assign f1 gapfill (mask_select gapfill (sitems s_gapfiller)) of
        Inl e \<Rightarrow> Inl e
      | Inr f2 \<Rightarrow>
      (case item (columns f2) 0 of
        Inl e \<Rightarrow> Inl e
      | Inr c1 \<Rightarrow>
      (case label_add c1 ''FLAG'' of
        Inl e \<Rightarrow> Inl e
      | Inr flag \<Rightarrow> Inr (setitem f2 flag (map Flag gapfill))))))))"

text \<open>
  \<^verbatim>\<open>gapfill_series(s_withgaps, s_gapfiller, makeplots=False)\<close>. The result is the
  returned frame with what the call printed and plotted. The chart is recorded with its
  title and its three curves, in the order of the calls to \<^verbatim>\<open>ax.plot\<close>.
\<close>

definition gapfill_series ::
  "'i series \<Rightarrow> 'i series \<Rightarrow> bool \<Rightarrow> error + (('i, label, cell) frame \<times> effect list)" where
  "gapfill_series s_withgaps s_gapfiller makeplots =
     (let s_filled = DataFrame_of s_withgaps in
      case (if sindex s_withgaps = sindex s_gapfiller
            then (case fill_gaps s_filled s_withgaps s_gapfiller of
                    Inl e \<Rightarrow> Inl e
                  | Inr f \<Rightarrow> Inr (f, []))
            else Inr (s_filled, [Printed ''Error - indices are not the same''])) of
        Inl e \<Rightarrow> Inl e
      | Inr (f, out) \<Rightarrow>
          if makeplots
          then (case item (data f) 0 of
                  Inl e \<Rightarrow> Inl e
                | Inr (l, c) \<Rightarrow>
                    Inr (f, out @ [Plotted (sname s_withgaps) c (svalues s_gapfiller)
                                     (svalues s_withgaps)]))
          else Inr (f, out))"

section \<open>The frequency resampler\<close>

text \<open>
  \<^verbatim>\<open>df[ls]\<close> with a list of labels: a new frame with, for each label of the list in
  turn, the columns of \<open>df\<close> that carry it; a KeyError when a label of the list is not a
  column of \<open>df\<close>.
\<close>

definition getitem_list ::
  "('i, 'l, 'c) frame \<Rightarrow> 'l list \<Rightarrow> error + ('i, 'l, 'c) frame" where
  "getitem_list df ls =
     (if \<forall>l\<in>set ls. l \<in> set (columns df)
      then Inr (df\<lparr>data := concat (map (\<lambda>l. filter (\<lambda>(k, c). k = l) (data df)) ls)\<rparr>)
      else Inl KeyError)"

text \<open>
  The resampling rule \<^verbatim>\<open>freq\<close> is a parameter of the source, and what pandas makes of
  it is a parameter here: a rule takes the index of a frame and either raises (an index
  that is not a time index) or gives the buckets in their order, each with its label and
  the test that says which row labels fall into it. Every result below holds for every
  rule.
\<close>

type_synonym ('i, 'b) rule = "'i list \<Rightarrow> error + ('b \<times> ('i \<Rightarrow> bool)) list"

text \<open>The cells of one column whose row falls into a bucket.\<close>

definition bucket_cells :: "('i \<Rightarrow> bool) \<Rightarrow> 'i list \<Rightarrow> 'c list \<Rightarrow> 'c list" where
  "bucket_cells p idx c = map snd (filter (\<lambda>(i, v). p i) (zip idx c))"

text \<open>
  \<^verbatim>\<open>df.resample(freq).agg()\<close>: the frame over the buckets with, in every column, the
  aggregate of the cells of each bucket.
\<close>

definition resample ::
  "('i, 'b) rule \<Rightarrow> ('c list \<Rightarrow> 'c) \<Rightarrow> ('i, 'l, 'c) frame \<Rightarrow> error + ('b, 'l, 'c) frame" where
  "resample freq agg df =
     (case freq (index df) of
        Inl e \<Rightarrow> Inl e
      | Inr buckets \<Rightarrow>
          Inr \<lparr>index = map fst buckets,
               data = map (\<lambda>(l, c). (l, map (\<lambda>(b, p). agg (bucket_cells p (index df) c)) buckets))
                        (data df)\<rparr>)"

text \<open>
  The four aggregates of pandas skip NaN. The sum of no number is \<open>0\<close>; the mean, the
  minimum and the maximum of no number are NaN.
\<close>

fun dropna :: "num list \<Rightarrow> real list" where
  "dropna [] = []"
| "dropna (None # vs) = dropna vs"
| "dropna (Some x # vs) = x # dropna vs"

definition agg_sum :: "num list \<Rightarrow> num" where
  "agg_sum vs = Some (sum_list (dropna vs))"

definition agg_mean :: "num list \<Rightarrow> num" where
  "agg_mean vs =
     (if dropna vs = [] then None
      else Some (sum_list (dropna vs) / real (length (dropna vs))))"

definition agg_min :: "num list \<Rightarrow> num" where
  "agg_min vs = (case dropna vs of [] \<Rightarrow> None | x # xs \<Rightarrow> Some (fold min xs x))"

definition agg_max :: "num list \<Rightarrow> num" where
  "agg_max vs = (case dropna vs of [] \<Rightarrow> None | x # xs \<Rightarrow> Some (fold max xs x))"

text \<open>
  \<^verbatim>\<open>f.rename(columns={i: j}, inplace=True)\<close>: every column labelled \<open>i\<close> is
  relabelled \<open>j\<close>. The loop
  \<^verbatim>\<open>
  for i in cols:
      f.rename(columns={ i:i + sfx}, inplace=True)
  \<close>
  relabels once for each entry of the list, in the order of the list, on the labels that
  the earlier turns have left.
\<close>

definition relabel :: "string \<Rightarrow> string \<Rightarrow> string \<Rightarrow> string" where
  "relabel sfx i k = (if k = i then i @ sfx else k)"

definition rename_columns ::
  "string \<Rightarrow> string \<Rightarrow> ('i, string, 'c) frame \<Rightarrow> ('i, string, 'c) frame" where
  "rename_columns sfx i f = f\<lparr>data := map (\<lambda>(k, c). (relabel sfx i k, c)) (data f)\<rparr>"

definition rename_loop ::
  "string \<Rightarrow> string list \<Rightarrow> ('i, string, 'c) frame \<Rightarrow> ('i, string, 'c) frame" where
  "rename_loop sfx cols f = fold (rename_columns sfx) cols f"

text \<open>\<^verbatim>\<open>pd.DataFrame(index=ix)\<close>: the frame over an index with no column.\<close>

definition empty_frame :: "'i list \<Rightarrow> ('i, 'l, 'c) frame" where
  "empty_frame ix = \<lparr>index = ix, data = []\<rparr>"

text \<open>
  \<^verbatim>\<open>pd.concat(fs, axis=1)\<close> joins the indices of the frames and puts their columns
  side by side. The source calls it on four frames over one index (lemma
  \<open>parts_share_index\<close>), where the join is that index and no cell moves; the definition
  is the concatenation for such frames.
\<close>

definition concat_axis1 :: "('i, 'l, 'c) frame list \<Rightarrow> ('i, 'l, 'c) frame" where
  "concat_axis1 fs =
     \<lparr>index = (case fs of [] \<Rightarrow> [] | f # _ \<Rightarrow> index f), data = concat (map data fs)\<rparr>"

text \<open>
  The body of the \<^verbatim>\<open>try\<close>: the three aggregations, then the three renaming loops.
  \<^verbatim>\<open>
  avg_resamp = df_avg.resample( freq ).mean()
  min_resamp = df_min.resample( freq ).min()
  max_resamp = df_max.resample( freq ).max()
  for i in avg_cols:
      avg_resamp.rename(columns={ i:i + '_avg'}, inplace=True)
  for i in min_cols:
      min_resamp.rename(columns={ i:i + '_min'}, inplace=True)
  for i in max_cols:
      max_resamp.rename(columns={ i:i + '_max'}, inplace=True)
  \<close>
\<close>

definition try_body ::
  "('i, 'b) rule \<Rightarrow> string list \<Rightarrow> string list \<Rightarrow> string list
     \<Rightarrow> ('i, string, num) frame \<Rightarrow> ('i, string, num) frame \<Rightarrow> ('i, string, num) frame
     \<Rightarrow> error + (('b, string, num) frame \<times> ('b, string, num) frame \<times> ('b, string, num) frame)" where
  "try_body freq avg_cols min_cols max_cols df_avg df_min df_max =
     (case resample freq agg_mean df_avg of
        Inl e \<Rightarrow> Inl e
      | Inr avg_resamp \<Rightarrow>
      (case resample freq agg_min df_min of
        Inl e \<Rightarrow> Inl e
      | Inr min_resamp \<Rightarrow>
      (case resample freq agg_max df_max of
        Inl e \<Rightarrow> Inl e
      | Inr max_resamp \<Rightarrow>
          Inr (rename_loop ''_avg'' avg_cols avg_resamp,
               rename_loop ''_min'' min_cols min_resamp,
               rename_loop ''_max'' max_cols max_resamp))))"

text \<open>
  \<^verbatim>\<open>resample_ecoflux_met(df, freq, avg_cols, min_cols, max_cols, sum_cols)\<close>. The four
  subsets and the resampled sums are computed before the \<^verbatim>\<open>try\<close>, so their errors
  leave the function; an error of the body of the \<^verbatim>\<open>try\<close> is replaced by three empty
  frames over the index of the resampled sums.
\<close>

definition resample_ecoflux_met ::
  "('i, string, num) frame \<Rightarrow> ('i, 'b) rule \<Rightarrow> string list \<Rightarrow> string list \<Rightarrow> string list
     \<Rightarrow> string list \<Rightarrow> error + ('b, string, num) frame" where
  "resample_ecoflux_met df freq avg_cols min_cols max_cols sum_cols =
     (case getitem_list df sum_cols of
        Inl e \<Rightarrow> Inl e
      | Inr df_sum \<Rightarrow>
      (case getitem_list df avg_cols of
        Inl e \<Rightarrow> Inl e
      | Inr df_avg \<Rightarrow>
      (case getitem_list df min_cols of
        Inl e \<Rightarrow> Inl e
      | Inr df_min \<Rightarrow>
      (case getitem_list df max_cols of
        Inl e \<Rightarrow> Inl e
      | Inr df_max \<Rightarrow>
      (case resample freq agg_sum df_sum of
        Inl e \<Rightarrow> Inl e
      | Inr sums_resamp \<Rightarrow>
          (let (avg_resamp, min_resamp, max_resamp) =
                 (case try_body freq avg_cols min_cols max_cols df_avg df_min df_max of
                    Inr r \<Rightarrow> r
                  | Inl e \<Rightarrow> (empty_frame (index sums_resamp),
                              empty_frame (index sums_resamp),
                              empty_frame (index sums_resamp)));
               sums_renamed = rename_loop ''_sum'' sum_cols sums_resamp
           in Inr (concat_axis1 [sums_renamed, avg_resamp, min_resamp, max_resamp])))))))"

text \<open>
  The default rule \<^verbatim>\<open>'1D'\<close> on an index of half-hour counts (48 to the day, counted
  from a midnight): one bucket for each day from the day of the earliest row to the day
  of the latest, labelled with its first half hour.
\<close>

definition daily :: "(int, int) rule" where
  "daily idx =
     (case idx of
        [] \<Rightarrow> Inr []
      | t # ts \<Rightarrow>
          Inr (map (\<lambda>d. (48 * d, \<lambda>i. i div 48 = d))
                 [fold min ts t div 48 ..fold max ts t div 48]))"

section \<open>The resampler over the aggregations of the library\<close>

text \<open>
  The sums, means, minima and maxima of the source are computed by pandas in 64-bit
  floating point, and an aggregation can raise (a column of text has no mean). Neither is
  in the source, so the second embedding of \<^verbatim>\<open>resample_ecoflux_met\<close> takes the four
  aggregations as parameters: each maps the cells of one column in one bucket to a cell
  or to an error, and the cells are of any type. The embedding above is the instance at
  the four aggregates over the reals, which never raise (lemma
  \<open>resample_ecoflux_met_with_total\<close>).
\<close>

text \<open>
  \<^verbatim>\<open>df.resample(freq).agg()\<close> for an aggregation that can raise: the first error of
  a column and a bucket leaves the call.
\<close>

definition resample_with ::
  "('i, 'b) rule \<Rightarrow> ('c list \<Rightarrow> error + 'c) \<Rightarrow> ('i, 'l, 'c) frame
     \<Rightarrow> error + ('b, 'l, 'c) frame" where
  "resample_with freq agg df =
     (case freq (index df) of
        Inl e \<Rightarrow> Inl e
      | Inr buckets \<Rightarrow>
          (case comprehension
                  (\<lambda>lc. case comprehension (\<lambda>bp. agg (bucket_cells (snd bp) (index df) (snd lc)))
                               buckets of
                          Inl e \<Rightarrow> Inl e
                        | Inr vs \<Rightarrow> Inr (fst lc, vs))
                  (data df) of
             Inl e \<Rightarrow> Inl e
           | Inr columns_resamp \<Rightarrow> Inr \<lparr>index = map fst buckets, data = columns_resamp\<rparr>))"

text \<open>The body of the \<^verbatim>\<open>try\<close>, as \<open>try_body\<close>, over the three aggregations.\<close>

definition try_body_with ::
  "('c list \<Rightarrow> error + 'c) \<Rightarrow> ('c list \<Rightarrow> error + 'c) \<Rightarrow> ('c list \<Rightarrow> error + 'c)
     \<Rightarrow> ('i, 'b) rule \<Rightarrow> string list \<Rightarrow> string list \<Rightarrow> string list
     \<Rightarrow> ('i, string, 'c) frame \<Rightarrow> ('i, string, 'c) frame \<Rightarrow> ('i, string, 'c) frame
     \<Rightarrow> error + (('b, string, 'c) frame \<times> ('b, string, 'c) frame \<times> ('b, string, 'c) frame)" where
  "try_body_with mean_agg min_agg max_agg freq avg_cols min_cols max_cols df_avg df_min df_max =
     (case resample_with freq mean_agg df_avg of
        Inl e \<Rightarrow> Inl e
      | Inr avg_resamp \<Rightarrow>
      (case resample_with freq min_agg df_min of
        Inl e \<Rightarrow> Inl e
      | Inr min_resamp \<Rightarrow>
      (case resample_with freq max_agg df_max of
        Inl e \<Rightarrow> Inl e
      | Inr max_resamp \<Rightarrow>
          Inr (rename_loop ''_avg'' avg_cols avg_resamp,
               rename_loop ''_min'' min_cols min_resamp,
               rename_loop ''_max'' max_cols max_resamp))))"

text \<open>
  \<^verbatim>\<open>resample_ecoflux_met\<close> over the four aggregations: the same statements in the
  same order as \<open>resample_ecoflux_met\<close>, with the \<^verbatim>\<open>except\<close> branch for any error of
  the body of the \<^verbatim>\<open>try\<close>.
\<close>

definition resample_ecoflux_met_with ::
  "('c list \<Rightarrow> error + 'c) \<Rightarrow> ('c list \<Rightarrow> error + 'c) \<Rightarrow> ('c list \<Rightarrow> error + 'c)
     \<Rightarrow> ('c list \<Rightarrow> error + 'c)
     \<Rightarrow> ('i, string, 'c) frame \<Rightarrow> ('i, 'b) rule \<Rightarrow> string list \<Rightarrow> string list \<Rightarrow> string list
     \<Rightarrow> string list \<Rightarrow> error + ('b, string, 'c) frame" where
  "resample_ecoflux_met_with sum_agg mean_agg min_agg max_agg df freq avg_cols min_cols max_cols
     sum_cols =
     (case getitem_list df sum_cols of
        Inl e \<Rightarrow> Inl e
      | Inr df_sum \<Rightarrow>
      (case getitem_list df avg_cols of
        Inl e \<Rightarrow> Inl e
      | Inr df_avg \<Rightarrow>
      (case getitem_list df min_cols of
        Inl e \<Rightarrow> Inl e
      | Inr df_min \<Rightarrow>
      (case getitem_list df max_cols of
        Inl e \<Rightarrow> Inl e
      | Inr df_max \<Rightarrow>
      (case resample_with freq sum_agg df_sum of
        Inl e \<Rightarrow> Inl e
      | Inr sums_resamp \<Rightarrow>
          (let (avg_resamp, min_resamp, max_resamp) =
                 (case try_body_with mean_agg min_agg max_agg freq avg_cols min_cols max_cols
                         df_avg df_min df_max of
                    Inr r \<Rightarrow> r
                  | Inl e \<Rightarrow> (empty_frame (index sums_resamp),
                              empty_frame (index sums_resamp),
                              empty_frame (index sums_resamp)));
               sums_renamed = rename_loop ''_sum'' sum_cols sums_resamp
           in Inr (concat_axis1 [sums_renamed, avg_resamp, min_resamp, max_resamp])))))))"

text \<open>
  The call takes the fallback: the three subsets exist and the body of the \<^verbatim>\<open>try\<close>
  raises.
\<close>

definition fallback_taken ::
  "('c list \<Rightarrow> error + 'c) \<Rightarrow> ('c list \<Rightarrow> error + 'c) \<Rightarrow> ('c list \<Rightarrow> error + 'c)
     \<Rightarrow> ('i, string, 'c) frame \<Rightarrow> ('i, 'b) rule \<Rightarrow> string list \<Rightarrow> string list \<Rightarrow> string list
     \<Rightarrow> bool" where
  "fallback_taken mean_agg min_agg max_agg df freq avg_cols min_cols max_cols =
     (case getitem_list df avg_cols of
        Inl e \<Rightarrow> False
      | Inr df_avg \<Rightarrow>
      (case getitem_list df min_cols of
        Inl e \<Rightarrow> False
      | Inr df_min \<Rightarrow>
      (case getitem_list df max_cols of
        Inl e \<Rightarrow> False
      | Inr df_max \<Rightarrow>
          isl (try_body_with mean_agg min_agg max_agg freq avg_cols min_cols max_cols
                 df_avg df_min df_max))))"

section \<open>Notions for the properties of the resampler\<close>

text \<open>The labels of \<^verbatim>\<open>df[ls]\<close>: for each entry of the list, the columns of \<open>df\<close> it names.\<close>

definition selected :: "('i, 'l, 'c) frame \<Rightarrow> 'l list \<Rightarrow> 'l list" where
  "selected df ls = concat (map (\<lambda>l. filter (\<lambda>k. k = l) (columns df)) ls)"

text \<open>
  The columns that one aggregation contributes to the result: the columns that its list
  selects, each under the label that the renaming loop leaves and with the aggregate of
  each bucket.
\<close>

definition part ::
  "string \<Rightarrow> string list \<Rightarrow> ('c list \<Rightarrow> 'c) \<Rightarrow> ('i, string, 'c) frame
     \<Rightarrow> ('b \<times> ('i \<Rightarrow> bool)) list \<Rightarrow> (string \<times> 'c list) list" where
  "part sfx cols agg df buckets =
     map (\<lambda>(k, c). (fold (relabel sfx) cols k,
                     map (\<lambda>(b, p). agg (bucket_cells p (index df) c)) buckets))
       (concat (map (\<lambda>l. filter (\<lambda>(k, c). k = l) (data df)) cols))"

text \<open>
  A label \<open>k\<close> of the result carries the suffix for the source column \<open>c\<close>: it is \<open>c\<close>
  followed by the suffix, once or several times, and exactly once unless \<open>c\<close> with the
  suffix is itself an entry of the list.
\<close>

definition carries :: "string \<Rightarrow> string list \<Rightarrow> string \<Rightarrow> string \<Rightarrow> bool" where
  "carries sfx cols c k =
     ((\<exists>j. k = c @ concat (replicate (Suc j) sfx)) \<and> (c @ sfx \<notin> set cols \<longrightarrow> k = c @ sfx))"

text \<open>The labels of a frame that are \<open>x\<close> followed by one of the four suffixes.\<close>

definition appearances :: "string \<Rightarrow> ('i, string, 'c) frame \<Rightarrow> string list" where
  "appearances x f =
     filter (\<lambda>k. k \<in> {x @ ''_sum'', x @ ''_avg'', x @ ''_min'', x @ ''_max''}) (columns f)"

section \<open>Properties of the location parser\<close>

lemma comprehension_Inl:
  "comprehension f xs = Inl e \<Longrightarrow> \<exists>x\<in>set xs. f x = Inl e"
  by (induction xs arbitrary: e) (auto split: sum.splits)

lemma comprehension_fails:
  "x \<in> set xs \<Longrightarrow> f x = Inl e \<Longrightarrow> \<exists>e'. comprehension f xs = Inl e'"
  by (induction xs) (auto split: sum.splits)

lemma item_error: "item xs i = Inl e \<Longrightarrow> e = IndexError"
  by (simp add: item_def split: if_splits)

lemma length_split_uscore: "length (split_uscore s) = Suc (count_uscores s)"
  by (induction s) (auto simp: count_uscores_def split: list.splits)

lemma count_uscores_append: "count_uscores (a @ b) = count_uscores a + count_uscores b"
  by (simp add: count_uscores_def)

lemma str_in_decompose: "str_in p s \<Longrightarrow> \<exists>a b. s = a @ p @ b"
proof (induction s)
  case Nil
  then show ?case by simp
next
  case (Cons c cs)
  then show ?case
  proof (cases "prefix p (c # cs)")
    case True
    then obtain b where "c # cs = p @ b" by (auto simp: prefix_def)
    then have "c # cs = [] @ p @ b" by simp
    then show ?thesis by blast
  next
    case False
    with Cons obtain a b where "cs = a @ p @ b" by auto
    then have "c # cs = (c # a) @ p @ b" by simp
    then show ?thesis by blast
  qed
qed

lemma matched_has_horiz:
  assumes "c \<in> set (meas_cols cols meas str_exclude)"
  shows "1 + count_uscores meas < length (split_uscore c)"
proof -
  from assms have "str_in (meas @ ''_'') c"
    by (auto simp: meas_cols_def split: option.splits)
  then obtain a b where "c = a @ (meas @ ''_'') @ b"
    using str_in_decompose by blast
  then have "count_uscores c = count_uscores a + count_uscores meas + 1 + count_uscores b"
    by (simp add: count_uscores_append) (simp add: count_uscores_def)
  then show ?thesis by (simp add: length_split_uscore)
qed

text \<open>
  Claim C6. When a column that passes the measurement filter splits into fewer pieces
  than the vertical position \<open>2 + u\<close> needs (\<open>u\<close> the underscores of \<open>meas\<close>), the call
  ends in the IndexError of the out-of-range read: no dictionary is returned, so the
  column is neither cut short nor left out.
\<close>

theorem malformed_column_raises:
  assumes "c \<in> set (meas_cols cols meas str_exclude)"
    and "length (split_uscore c) < 3 + count_uscores meas"
  shows "measurement_h_v_dict cols meas str_exclude = Inl IndexError"
proof -
  let ?u = "count_uscores meas"
  let ?m = "meas_cols cols meas str_exclude"
  have "item (split_uscore c) (2 + ?u) = Inl IndexError"
    using assms(2) by (simp add: item_def)
  with assms(1) obtain e where e: "comprehension (\<lambda>n. item (split_uscore n) (2 + ?u)) ?m = Inl e"
    using comprehension_fails by fastforce
  then have "e = IndexError"
    using comprehension_Inl item_error by fastforce
  with e have v: "comprehension (\<lambda>n. item (split_uscore n) (2 + ?u)) ?m = Inl IndexError"
    by simp
  show ?thesis
  proof (cases "comprehension (\<lambda>n. item (split_uscore n) (1 + ?u)) ?m")
    case (Inl e')
    then have "e' = IndexError"
      using comprehension_Inl item_error by fastforce
    with Inl show ?thesis by (simp add: measurement_h_v_dict_def)
  next
    case (Inr horiz)
    with v show ?thesis by (simp add: measurement_h_v_dict_def)
  qed
qed

text \<open>The column \<open>TA_2\<close> has a horizontal label and no vertical one.\<close>

theorem malformed_column_raises_witness:
  "measurement_h_v_dict [''TA_1_1_1'', ''TA_2''] ''TA'' None = Inl IndexError"
  by (rule malformed_column_raises [of "''TA_2''"]) (simp_all add: meas_cols_def count_uscores_def)

text \<open>
  Claim C4. For the columns \<open>TA_1_1_1\<close>, \<open>TA_1_2_1\<close>, \<open>TA_2_1_1\<close>, the measurement
  \<open>TA\<close> and no exclusion string, the result is the dictionary with \<open>TA_1\<close> mapped to
  \<open>1, 2\<close> and \<open>TA_2\<close> mapped to \<open>1\<close>, and no other key.
\<close>

theorem location_map_example:
  "measurement_h_v_dict [''TA_1_1_1'', ''TA_1_2_1'', ''TA_2_1_1''] ''TA'' None
     = Inr [''TA_1'' \<mapsto> [''1'', ''2''], ''TA_2'' \<mapsto> [''1'']]"
  by (simp add: measurement_h_v_dict_def meas_cols_def count_uscores_def item_def
      init_dict_def fun_upd_twist)

section \<open>Properties of the gap filler\<close>

lemma mask_select_map: "mask_select m (map f xs) = map f (mask_select m xs)"
proof (induction m arbitrary: xs)
  case Nil
  then show ?case by (simp add: mask_select_def)
next
  case (Cons b m)
  then show ?case by (cases xs) (auto simp: mask_select_def)
qed

lemma put_masked_select:
  "length ys = length xs \<Longrightarrow>
   put_masked (map p xs) (map f xs) (map h (mask_select (map p xs) ys))
     = map2 (\<lambda>x y. if p x then h y else f x) xs ys"
proof (induction xs arbitrary: ys)
  case Nil
  then show ?case by simp
next
  case (Cons x xs)
  then obtain y ys' where ys: "ys = y # ys'" by (cases ys) auto
  with Cons show ?case by (cases "p x") (simp_all add: mask_select_def)
qed


lemma put_masked_none:
  "\<forall>b\<in>set m. \<not> b \<Longrightarrow> put_masked m xs vs = xs"
  by (induction m xs vs rule: put_masked.induct) auto

lemma fill_gaps_equal_index:
  assumes "sindex s = sindex g" and "sname s = Some n"
  shows "fill_gaps (DataFrame_of s) s g =
    Inr \<lparr>index = sindex s,
        data = [(Name (n @ ''_gf''),
                 map2 (\<lambda>v w. Number (if isnan v then w else v)) (svalues s) (svalues g)),
                (Name (n @ ''_gfFLAG''), map (\<lambda>v. Flag (isnan v)) (svalues s))]\<rparr>"
proof -
  let ?gap = "map isnan (svalues s)"
  from assms(1) have len: "length (sitems g) = length (svalues s)"
    by (metis length_map sindex_def svalues_def)
  have sel: "map fst (mask_select ?gap (sitems g)) = mask_select ?gap (sindex s)"
    using assms(1) by (simp add: mask_select_map sindex_def)
  have put: "put_masked ?gap (map Number (svalues s))
               (map (Number \<circ> snd) (mask_select ?gap (sitems g)))
             = map2 (\<lambda>v w. Number (if isnan v then w else v)) (svalues s) (svalues g)"
    using put_masked_select [OF len, of isnan Number "Number \<circ> snd"]
    by (simp add: svalues_def zip_map2 comp_def case_prod_unfold)
  show ?thesis
    using assms(2) sel put
    by (simp add: fill_gaps_def DataFrame_of_def columns_def item_def label_add_def
        set_columns_def loc_assign_def setitem_def)
qed


lemma gapfill_equal_index:
  assumes "sindex s = sindex g" and "sname s = Some n"
  shows "\<exists>out. gapfill_series s g makeplots =
    Inr (\<lparr>index = sindex s,
          data = [(Name (n @ ''_gf''),
                   map2 (\<lambda>v w. Number (if isnan v then w else v)) (svalues s) (svalues g)),
                  (Name (n @ ''_gfFLAG''), map (\<lambda>v. Flag (isnan v)) (svalues s))]\<rparr>, out)"
  using assms(1) fill_gaps_equal_index [OF assms]
  by (simp add: gapfill_series_def item_def)

text \<open>
  Claim C2. For two series with equal indices, the first one named \<open>n\<close>, the call
  returns the frame over that index with two columns: \<open>n_gf\<close>, which holds the value of
  the first series where it is a number and the value of the filler where it is NaN, and
  \<open>n_gfFLAG\<close>, which holds at each row whether the first series was NaN there.
\<close>

theorem gapfill_fills_and_flags:
  assumes "sindex s_withgaps = sindex s_gapfiller" and "sname s_withgaps = Some n"
  shows "\<exists>out. gapfill_series s_withgaps s_gapfiller makeplots =
    Inr (\<lparr>index = sindex s_withgaps,
          data = [(Name (n @ ''_gf''),
                   map2 (\<lambda>v w. Number (if isnan v then w else v))
                     (svalues s_withgaps) (svalues s_gapfiller)),
                  (Name (n @ ''_gfFLAG''),
                   map (\<lambda>v. Flag (isnan v)) (svalues s_withgaps))]\<rparr>, out)"
  using assms by (rule gapfill_equal_index)

text \<open>A series with two gaps, one of which the filler can fill.\<close>

theorem gapfill_fills_and_flags_witness:
  "\<exists>out. gapfill_series
      \<lparr>sname = Some ''TA'', sitems = [(1::nat, Some 3), (2, None), (3, None)]\<rparr>
      \<lparr>sname = Some ''TB'', sitems = [(1, Some 7), (2, Some 8), (3, None)]\<rparr> False =
    Inr (\<lparr>index = [1, 2, 3],
          data = [(Name ''TA_gf'', [Number (Some 3), Number (Some 8), Number None]),
                  (Name ''TA_gfFLAG'', [Flag False, Flag True, Flag True])]\<rparr>, out)"
  using gapfill_fills_and_flags
    [of "\<lparr>sname = Some ''TA'', sitems = [(1::nat, Some 3), (2, None), (3, None)]\<rparr>"
        "\<lparr>sname = Some ''TB'', sitems = [(1, Some 7), (2, Some 8), (3, None)]\<rparr>"
        "''TA''" False]
  by (simp add: sindex_def svalues_def isnan_def)

text \<open>
  Claim C3. For two series whose indices differ, the call raises nothing: it prints the
  diagnostic and returns the frame with the one column of the first series, under its
  own label and with its own values; the columns \<open>n_gf\<close> and \<open>n_gfFLAG\<close> are absent.
\<close>

theorem gapfill_index_mismatch:
  assumes "sindex s_withgaps \<noteq> sindex s_gapfiller"
  shows "\<exists>f plots. gapfill_series s_withgaps s_gapfiller makeplots
            = Inr (f, Printed ''Error - indices are not the same'' # plots)
         \<and> index f = sindex s_withgaps
         \<and> data f = [(case sname s_withgaps of None \<Rightarrow> Position 0 | Some n \<Rightarrow> Name n,
                      map Number (svalues s_withgaps))]
         \<and> (\<forall>n. sname s_withgaps = Some n \<longrightarrow>
               Name (n @ ''_gf'') \<notin> set (columns f) \<and> Name (n @ ''_gfFLAG'') \<notin> set (columns f))"
  using assms
  by (cases makeplots) (auto simp: gapfill_series_def DataFrame_of_def item_def columns_def)

text \<open>Two series that differ in their second label, with the chart switched on.\<close>

theorem gapfill_index_mismatch_witness:
  "\<exists>f plots. gapfill_series
        \<lparr>sname = Some ''TA'', sitems = [(1::nat, Some 3), (2, None)]\<rparr>
        \<lparr>sname = Some ''TB'', sitems = [(1, Some 7), (5, Some 8)]\<rparr> True
            = Inr (f, Printed ''Error - indices are not the same'' # plots)
         \<and> index f = [1, 2]
         \<and> data f = [(Name ''TA'', [Number (Some 3), Number None])]
         \<and> Name ''TA_gf'' \<notin> set (columns f) \<and> Name ''TA_gfFLAG'' \<notin> set (columns f)"
  using gapfill_index_mismatch
    [of "\<lparr>sname = Some ''TA'', sitems = [(1::nat, Some 3), (2, None)]\<rparr>"
        "\<lparr>sname = Some ''TB'', sitems = [(1, Some 7), (5, Some 8)]\<rparr>" True]
  by (simp add: sindex_def svalues_def)

lemma map2_no_gaps:
  "length xs = length ys \<Longrightarrow> \<forall>v\<in>set xs. \<not> p v \<Longrightarrow>
   map2 (\<lambda>v w. f (if p v then w else v)) xs ys = map f xs"
  by (induction xs ys rule: list_induct2) auto

lemma equal_index_length:
  "sindex s = sindex g \<Longrightarrow> length (svalues s) = length (svalues g)"
  by (metis length_map sindex_def svalues_def)

text \<open>
  Claim C7. For two series with equal indices, the first one named \<open>n\<close> and free of
  NaN, the column \<open>n_gf\<close> is the first series and the column \<open>n_gfFLAG\<close> is false at
  every row.
\<close>

theorem gapfill_no_gaps:
  assumes "sindex s_withgaps = sindex s_gapfiller" and "sname s_withgaps = Some n"
    and "\<forall>v\<in>set (svalues s_withgaps). \<not> isnan v"
  shows "\<exists>out. gapfill_series s_withgaps s_gapfiller makeplots =
    Inr (\<lparr>index = sindex s_withgaps,
          data = [(Name (n @ ''_gf''), map Number (svalues s_withgaps)),
                  (Name (n @ ''_gfFLAG''), map (\<lambda>v. Flag False) (svalues s_withgaps))]\<rparr>, out)"
proof -
  have a: "map2 (\<lambda>v w. Number (if isnan v then w else v)) (svalues s_withgaps) (svalues s_gapfiller)
             = map Number (svalues s_withgaps)"
    using equal_index_length [OF assms(1)] assms(3) by (rule map2_no_gaps)
  have b: "map (\<lambda>v. Flag (isnan v)) (svalues s_withgaps)
             = map (\<lambda>v. Flag False) (svalues s_withgaps)"
    using assms(3) by simp
  show ?thesis
    using gapfill_equal_index [OF assms(1,2), of makeplots] by (simp only: a b)
qed

text \<open>A first series without gaps; the filler has one.\<close>

theorem gapfill_no_gaps_witness:
  "\<exists>out. gapfill_series
      \<lparr>sname = Some ''TA'', sitems = [(1::nat, Some 3), (2, Some 4)]\<rparr>
      \<lparr>sname = Some ''TB'', sitems = [(1, Some 7), (2, None)]\<rparr> False =
    Inr (\<lparr>index = [1, 2],
          data = [(Name ''TA_gf'', [Number (Some 3), Number (Some 4)]),
                  (Name ''TA_gfFLAG'', [Flag False, Flag False])]\<rparr>, out)"
  using gapfill_no_gaps
    [of "\<lparr>sname = Some ''TA'', sitems = [(1::nat, Some 3), (2, Some 4)]\<rparr>"
        "\<lparr>sname = Some ''TB'', sitems = [(1, Some 7), (2, None)]\<rparr>"
        "''TA''" False]
  by (simp add: sindex_def svalues_def isnan_def)

text \<open>
  Claim C10. For two series with equal indices, the first one named \<open>n\<close>, and a row
  where both are NaN, the column \<open>n_gf\<close> is NaN at that row and the column \<open>n_gfFLAG\<close>
  is true there.
\<close>

theorem gapfill_both_missing:
  assumes "sindex s_withgaps = sindex s_gapfiller" and "sname s_withgaps = Some n"
    and "k < length (svalues s_withgaps)"
    and "isnan (svalues s_withgaps ! k)" and "isnan (svalues s_gapfiller ! k)"
  shows "\<exists>f out gf flag. gapfill_series s_withgaps s_gapfiller makeplots = Inr (f, out)
           \<and> data f = [(Name (n @ ''_gf''), gf), (Name (n @ ''_gfFLAG''), flag)]
           \<and> gf ! k = Number None \<and> flag ! k = Flag True"
proof -
  let ?gf = "map2 (\<lambda>v w. Number (if isnan v then w else v))
               (svalues s_withgaps) (svalues s_gapfiller)"
  let ?flag = "map (\<lambda>v. Flag (isnan v)) (svalues s_withgaps)"
  have len: "length (svalues s_withgaps) = length (svalues s_gapfiller)"
    using assms(1) by (rule equal_index_length)
  have "?gf ! k = Number (svalues s_gapfiller ! k)"
    using assms(3,4) len by simp
  then have gf: "?gf ! k = Number None"
    using assms(5) by (simp add: isnan_def)
  have flag: "?flag ! k = Flag True"
    using assms(3,4) by simp
  from gapfill_equal_index [OF assms(1,2), of makeplots] gf flag
  show ?thesis by force
qed

text \<open>Both series are NaN at the second row.\<close>

theorem gapfill_both_missing_witness:
  "\<exists>f out gf flag. gapfill_series
      \<lparr>sname = Some ''TA'', sitems = [(1::nat, Some 3), (2, None)]\<rparr>
      \<lparr>sname = Some ''TB'', sitems = [(1, Some 7), (2, None)]\<rparr> False = Inr (f, out)
           \<and> data f = [(Name ''TA_gf'', gf), (Name ''TA_gfFLAG'', flag)]
           \<and> gf ! 1 = Number None \<and> flag ! 1 = Flag True"
  using gapfill_both_missing
    [of "\<lparr>sname = Some ''TA'', sitems = [(1::nat, Some 3), (2, None)]\<rparr>"
        "\<lparr>sname = Some ''TB'', sitems = [(1, Some 7), (2, None)]\<rparr>"
        "''TA''" 1 False]
  by (simp add: sindex_def svalues_def isnan_def)

text \<open>
  A series without a name has the column label \<open>0\<close>, and \<^verbatim>\<open>0 + '_gf'\<close> is a
  TypeError: with equal indices the call raises.
\<close>

lemma gapfill_unnamed_raises:
  "sindex s = sindex g \<Longrightarrow> sname s = None \<Longrightarrow> gapfill_series s g makeplots = Inl TypeError"
  by (simp add: gapfill_series_def fill_gaps_def DataFrame_of_def columns_def item_def
      label_add_def)

section \<open>Properties of the resampler\<close>

lemma getitem_list_Inr:
  "getitem_list df ls = Inr f \<Longrightarrow>
     index f = index df \<and> data f = concat (map (\<lambda>l. filter (\<lambda>(k, c). k = l) (data df)) ls)"
  by (auto simp: getitem_list_def split: if_splits)

lemma getitem_list_Inl: "getitem_list df ls = Inl e \<Longrightarrow> e = KeyError"
  by (auto simp: getitem_list_def split: if_splits)

lemma getitem_list_missing:
  "\<not> set ls \<subseteq> set (columns df) \<Longrightarrow> getitem_list df ls = Inl KeyError"
  by (auto simp: getitem_list_def)

lemma getitem_list_present:
  "set ls \<subseteq> set (columns df) \<Longrightarrow> \<exists>f. getitem_list df ls = Inr f"
  by (auto simp: getitem_list_def)

text \<open>
  Claim C1. The claim is that a table with every column of \<open>sum_cols\<close> and without some
  column of \<open>avg_cols\<close>, \<open>min_cols\<close> or \<open>max_cols\<close> is resampled without an error. The
  source takes the four subsets \<^verbatim>\<open>df[ avg_cols ]\<close>, ... before its \<^verbatim>\<open>try\<close>,
  so for every such table the call raises the KeyError of the missing column and
  nothing is returned.
\<close>

theorem missing_columns_raise:
  assumes "set sum_cols \<subseteq> set (columns df)"
    and "\<not> set (avg_cols @ min_cols @ max_cols) \<subseteq> set (columns df)"
  shows "resample_ecoflux_met df freq avg_cols min_cols max_cols sum_cols = Inl KeyError"
proof -
  obtain df_sum where s: "getitem_list df sum_cols = Inr df_sum"
    using assms(1) getitem_list_present by blast
  show ?thesis
  proof (cases "set avg_cols \<subseteq> set (columns df)")
    case False
    then show ?thesis
      by (simp add: resample_ecoflux_met_def s getitem_list_missing)
  next
    case avg: True
    then obtain df_avg where a: "getitem_list df avg_cols = Inr df_avg"
      using getitem_list_present by blast
    show ?thesis
    proof (cases "set min_cols \<subseteq> set (columns df)")
      case False
      then show ?thesis
        by (simp add: resample_ecoflux_met_def s a getitem_list_missing)
    next
      case True
      then obtain df_min where m: "getitem_list df min_cols = Inr df_min"
        using getitem_list_present by blast
      from True avg assms(2) have "\<not> set max_cols \<subseteq> set (columns df)" by auto
      then show ?thesis
        by (simp add: resample_ecoflux_met_def s a m getitem_list_missing)
    qed
  qed
qed

text \<open>A table with the precipitation column only, under the default lists.\<close>

theorem missing_columns_raise_witness:
  "resample_ecoflux_met
     \<lparr>index = [0, 1, 48], data = [(''P_F'', [Some 1, Some 1, Some 1])]\<rparr> daily
     [''TA_F''] [''TA_F'', ''VPD_F''] [''LE_F'', ''H_F''] [''P_F''] = Inl KeyError"
  by (rule missing_columns_raise) (simp_all add: columns_def)

lemma data_rename_loop:
  "data (rename_loop sfx cols f) = map (\<lambda>(k, c). (fold (relabel sfx) cols k, c)) (data f)"
  unfolding rename_loop_def
proof (induction cols arbitrary: f)
  case Nil
  then show ?case by simp
next
  case (Cons i cols)
  have "data (fold (rename_columns sfx) (i # cols) f)
      = map (\<lambda>(k, c). (fold (relabel sfx) cols k, c)) (data (rename_columns sfx i f))"
    by (simp add: Cons)
  also have "\<dots> = map (\<lambda>(k, c). (fold (relabel sfx) (i # cols) k, c)) (data f)"
    by (simp add: rename_columns_def case_prod_unfold)
  finally show ?case .
qed

lemma index_rename_loop: "index (rename_loop sfx cols f) = index f"
  unfolding rename_loop_def
  by (induction cols arbitrary: f) (simp_all add: rename_columns_def)

lemma relabel_same: "relabel sfx i i = i @ sfx"
  by (simp add: relabel_def)

lemma relabel_other: "k \<noteq> i \<Longrightarrow> relabel sfx i k = k"
  by (simp add: relabel_def)

lemma relabel_chain:
  "\<exists>j. fold (relabel sfx) cols k = k @ concat (replicate j sfx) \<and> (k \<in> set cols \<longrightarrow> 0 < j)"
proof (induction cols arbitrary: k)
  case Nil
  have "fold (relabel sfx) [] k = k @ concat (replicate 0 sfx)" by simp
  then show ?case by (metis empty_iff list.set(1))
next
  case (Cons i cols)
  obtain j where j: "fold (relabel sfx) cols (relabel sfx i k)
      = relabel sfx i k @ concat (replicate j sfx)"
    and pos: "relabel sfx i k \<in> set cols \<longrightarrow> 0 < j"
    using Cons by blast
  show ?case
  proof (cases "k = i")
    case True
    then have "fold (relabel sfx) (i # cols) k = k @ concat (replicate (Suc j) sfx)"
      using j by (simp add: relabel_same)
    then show ?thesis by blast
  next
    case False
    then have "fold (relabel sfx) (i # cols) k = k @ concat (replicate j sfx)"
      using j by (simp add: relabel_other)
    moreover have "k \<in> set (i # cols) \<longrightarrow> 0 < j"
      using False pos by (simp add: relabel_other)
    ultimately show ?thesis by blast
  qed
qed

lemma relabel_untouched: "k \<notin> set cols \<Longrightarrow> fold (relabel sfx) cols k = k"
  by (induction cols) (simp_all add: relabel_other)

lemma relabel_once:
  "k \<in> set cols \<Longrightarrow> k @ sfx \<notin> set cols \<Longrightarrow> fold (relabel sfx) cols k = k @ sfx"
proof (induction cols)
  case Nil
  then show ?case by simp
next
  case (Cons i cols)
  show ?case
  proof (cases "k = i")
    case True
    with Cons.prems show ?thesis by (simp add: relabel_same relabel_untouched)
  next
    case False
    with Cons show ?thesis by (simp add: relabel_other)
  qed
qed

lemma relabel_carries:
  assumes "k \<in> set cols"
  shows "carries sfx cols k (fold (relabel sfx) cols k)"
proof -
  obtain j where "fold (relabel sfx) cols k = k @ concat (replicate j sfx)" and "0 < j"
    using relabel_chain assms by blast
  then have "\<exists>j'. fold (relabel sfx) cols k = k @ concat (replicate (Suc j') sfx)"
    by (cases j) auto
  then show ?thesis
    using assms by (auto simp: carries_def relabel_once)
qed


lemma resample_Inr:
  "freq (index df) = Inr buckets \<Longrightarrow>
   resample freq agg df =
     Inr \<lparr>index = map fst buckets,
          data = map (\<lambda>(l, c). (l, map (\<lambda>(b, p). agg (bucket_cells p (index df) c)) buckets))
                   (data df)\<rparr>"
  by (simp add: resample_def)

lemma resample_Inl: "freq (index df) = Inl e \<Longrightarrow> resample freq agg df = Inl e"
  by (simp add: resample_def)

lemma part_after_getitem:
  assumes "getitem_list df cols = Inr f" and "freq (index df) = Inr buckets"
  shows "\<exists>r. resample freq agg f = Inr r \<and> index r = map fst buckets
           \<and> index (rename_loop sfx cols r) = map fst buckets
           \<and> data (rename_loop sfx cols r) = part sfx cols agg df buckets"
proof -
  from getitem_list_Inr [OF assms(1)]
  have ix: "index f = index df"
    and d: "data f = concat (map (\<lambda>l. filter (\<lambda>(k, c). k = l) (data df)) cols)"
    by simp_all
  have "freq (index f) = Inr buckets" using assms(2) ix by simp
  from resample_Inr [where freq = freq and agg = agg, OF this] show ?thesis
    by (simp add: index_rename_loop data_rename_loop part_def ix d case_prod_unfold comp_def)
qed

lemma try_body_succeeds:
  assumes "getitem_list df avg_cols = Inr df_avg" and "getitem_list df min_cols = Inr df_min"
    and "getitem_list df max_cols = Inr df_max" and "freq (index df) = Inr buckets"
  shows "\<exists>a mi ma. try_body freq avg_cols min_cols max_cols df_avg df_min df_max = Inr (a, mi, ma)
           \<and> index a = map fst buckets \<and> data a = part ''_avg'' avg_cols agg_mean df buckets
           \<and> index mi = map fst buckets \<and> data mi = part ''_min'' min_cols agg_min df buckets
           \<and> index ma = map fst buckets \<and> data ma = part ''_max'' max_cols agg_max df buckets"
proof -
  obtain ra where ra: "resample freq agg_mean df_avg = Inr ra"
    "index (rename_loop ''_avg'' avg_cols ra) = map fst buckets"
    "data (rename_loop ''_avg'' avg_cols ra) = part ''_avg'' avg_cols agg_mean df buckets"
    using part_after_getitem [where freq = freq, OF assms(1,4)] by blast
  obtain rmi where rmi: "resample freq agg_min df_min = Inr rmi"
    "index (rename_loop ''_min'' min_cols rmi) = map fst buckets"
    "data (rename_loop ''_min'' min_cols rmi) = part ''_min'' min_cols agg_min df buckets"
    using part_after_getitem [where freq = freq, OF assms(2,4)] by blast
  obtain rma where rma: "resample freq agg_max df_max = Inr rma"
    "index (rename_loop ''_max'' max_cols rma) = map fst buckets"
    "data (rename_loop ''_max'' max_cols rma) = part ''_max'' max_cols agg_max df buckets"
    using part_after_getitem [where freq = freq, OF assms(3,4)] by blast
  show ?thesis
    by (simp add: try_body_def ra rmi rma)
qed

lemma resample_ecoflux_met_returns:
  assumes "resample_ecoflux_met df freq avg_cols min_cols max_cols sum_cols = Inr out"
  shows "\<exists>buckets. freq (index df) = Inr buckets
           \<and> set (sum_cols @ avg_cols @ min_cols @ max_cols) \<subseteq> set (columns df)
           \<and> index out = map fst buckets
           \<and> data out = part ''_sum'' sum_cols agg_sum df buckets
                        @ part ''_avg'' avg_cols agg_mean df buckets
                        @ part ''_min'' min_cols agg_min df buckets
                        @ part ''_max'' max_cols agg_max df buckets"
proof -
  from assms obtain df_sum where s: "getitem_list df sum_cols = Inr df_sum"
    by (cases "getitem_list df sum_cols") (simp_all add: resample_ecoflux_met_def)
  from assms s obtain df_avg where a: "getitem_list df avg_cols = Inr df_avg"
    by (cases "getitem_list df avg_cols") (simp_all add: resample_ecoflux_met_def)
  from assms s a obtain df_min where mi: "getitem_list df min_cols = Inr df_min"
    by (cases "getitem_list df min_cols") (simp_all add: resample_ecoflux_met_def)
  from assms s a mi obtain df_max where ma: "getitem_list df max_cols = Inr df_max"
    by (cases "getitem_list df max_cols") (simp_all add: resample_ecoflux_met_def)
  have ixs: "index df_sum = index df" using getitem_list_Inr [OF s] by simp
  from assms s a mi ma obtain buckets where b: "freq (index df) = Inr buckets"
    by (cases "freq (index df)") (simp_all add: resample_ecoflux_met_def resample_def ixs)
  obtain rs where rs: "resample freq agg_sum df_sum = Inr rs"
    "index (rename_loop ''_sum'' sum_cols rs) = map fst buckets"
    "data (rename_loop ''_sum'' sum_cols rs) = part ''_sum'' sum_cols agg_sum df buckets"
    using part_after_getitem [where freq = freq, OF s b] by blast
  obtain ra rmi rma where t:
    "try_body freq avg_cols min_cols max_cols df_avg df_min df_max = Inr (ra, rmi, rma)"
    "data ra = part ''_avg'' avg_cols agg_mean df buckets"
    "data rmi = part ''_min'' min_cols agg_min df buckets"
    "data rma = part ''_max'' max_cols agg_max df buckets"
    using try_body_succeeds [where freq = freq, OF a mi ma b] by blast
  have "out = concat_axis1 [rename_loop ''_sum'' sum_cols rs, ra, rmi, rma]"
    using assms by (simp add: resample_ecoflux_met_def s a mi ma rs(1) t(1))
  moreover have "set (sum_cols @ avg_cols @ min_cols @ max_cols) \<subseteq> set (columns df)"
    using s a mi ma by (auto simp: getitem_list_def split: if_splits)
  ultimately show ?thesis
    using b rs(2,3) t(2,3,4) by (simp add: concat_axis1_def)
qed

lemma parts_share_index:
  assumes "getitem_list df sum_cols = Inr df_sum" and "getitem_list df avg_cols = Inr df_avg"
    and "getitem_list df min_cols = Inr df_min" and "getitem_list df max_cols = Inr df_max"
    and "resample freq agg_sum df_sum = Inr sums_resamp"
  shows "\<exists>a mi ma. try_body freq avg_cols min_cols max_cols df_avg df_min df_max = Inr (a, mi, ma)
           \<and> index a = index (rename_loop ''_sum'' sum_cols sums_resamp)
           \<and> index mi = index (rename_loop ''_sum'' sum_cols sums_resamp)
           \<and> index ma = index (rename_loop ''_sum'' sum_cols sums_resamp)"
proof -
  have ixs: "index df_sum = index df" using getitem_list_Inr [OF assms(1)] by simp
  from assms(5) obtain buckets where b: "freq (index df) = Inr buckets"
    by (cases "freq (index df)") (simp_all add: resample_def ixs)
  from assms(5) b have "index sums_resamp = map fst buckets"
    by (auto simp: resample_def ixs)
  with try_body_succeeds [where freq = freq, OF assms(2,3,4) b] show ?thesis
    by (auto simp: index_rename_loop)
qed


lemma set_selected: "set ls \<subseteq> set (columns df) \<Longrightarrow> set (selected df ls) = set ls"
  by (auto simp: selected_def)

lemma labels_part:
  "map fst (part sfx cols agg df buckets) = map (fold (relabel sfx) cols) (selected df cols)"
proof -
  have "map fst (concat (map (\<lambda>l. filter (\<lambda>(k, c). k = l) (data df)) cols)) = selected df cols"
    by (induction cols) (simp_all add: selected_def columns_def filter_map comp_def case_prod_unfold)
  moreover have "map fst (part sfx cols agg df buckets)
      = map (fold (relabel sfx) cols)
          (map fst (concat (map (\<lambda>l. filter (\<lambda>(k, c). k = l) (data df)) cols)))"
    by (simp add: part_def comp_def case_prod_unfold)
  ultimately show ?thesis by simp
qed

lemma part_carries:
  "list_all2 (carries sfx cols) (selected df cols) (map fst (part sfx cols agg df buckets))"
proof -
  have "\<forall>k\<in>set (selected df cols). carries sfx cols k (fold (relabel sfx) cols k)"
    by (auto simp: selected_def intro: relabel_carries)
  then show ?thesis
    by (simp add: labels_part list_all2_map2 list.rel_refl_strong)
qed

text \<open>
  Claim C8. When the call returns, the columns of the result are four blocks in the
  order sum, average, minimum, maximum; the columns of a block correspond one to one,
  in order, to the columns its list selects, every listed column is selected, and each
  column carries the suffix of its block. The body of the \<^verbatim>\<open>try\<close> has then not
  raised (lemma \<open>parts_share_index\<close>), so this is the case without the fallback.
\<close>

theorem output_columns_carry_suffix:
  assumes "resample_ecoflux_met df freq avg_cols min_cols max_cols sum_cols = Inr out"
  shows "\<exists>s a mi ma. columns out = s @ a @ mi @ ma
           \<and> list_all2 (carries ''_sum'' sum_cols) (selected df sum_cols) s
           \<and> list_all2 (carries ''_avg'' avg_cols) (selected df avg_cols) a
           \<and> list_all2 (carries ''_min'' min_cols) (selected df min_cols) mi
           \<and> list_all2 (carries ''_max'' max_cols) (selected df max_cols) ma
           \<and> set (selected df sum_cols) = set sum_cols
           \<and> set (selected df avg_cols) = set avg_cols
           \<and> set (selected df min_cols) = set min_cols
           \<and> set (selected df max_cols) = set max_cols"
proof -
  from resample_ecoflux_met_returns [OF assms] obtain buckets where
    b: "freq (index df) = Inr buckets"
    and sub: "set (sum_cols @ avg_cols @ min_cols @ max_cols) \<subseteq> set (columns df)"
    and d: "data out = part ''_sum'' sum_cols agg_sum df buckets
                        @ part ''_avg'' avg_cols agg_mean df buckets
                        @ part ''_min'' min_cols agg_min df buckets
                        @ part ''_max'' max_cols agg_max df buckets"
    by blast
  let ?s = "map fst (part ''_sum'' sum_cols agg_sum df buckets)"
  let ?a = "map fst (part ''_avg'' avg_cols agg_mean df buckets)"
  let ?mi = "map fst (part ''_min'' min_cols agg_min df buckets)"
  let ?ma = "map fst (part ''_max'' max_cols agg_max df buckets)"
  show ?thesis
  proof (intro exI conjI)
    show "columns out = ?s @ ?a @ ?mi @ ?ma"
      by (simp add: columns_def d)
    show "list_all2 (carries ''_sum'' sum_cols) (selected df sum_cols) ?s"
      by (rule part_carries)
    show "list_all2 (carries ''_avg'' avg_cols) (selected df avg_cols) ?a"
      by (rule part_carries)
    show "list_all2 (carries ''_min'' min_cols) (selected df min_cols) ?mi"
      by (rule part_carries)
    show "list_all2 (carries ''_max'' max_cols) (selected df max_cols) ?ma"
      by (rule part_carries)
    show "set (selected df sum_cols) = set sum_cols"
      using sub by (simp add: set_selected)
    show "set (selected df avg_cols) = set avg_cols"
      using sub by (simp add: set_selected)
    show "set (selected df min_cols) = set min_cols"
      using sub by (simp add: set_selected)
    show "set (selected df max_cols) = set max_cols"
      using sub by (simp add: set_selected)
  qed
qed

subsection \<open>One column in the sum list and in the average list\<close>

lemma relabel_hits:
  assumes "x @ sfx \<notin> set cols" and "\<forall>c\<in>set cols. c @ sfx \<noteq> x"
  shows "fold (relabel sfx) cols k = x @ sfx \<longleftrightarrow> (k = x \<and> x \<in> set cols) \<or> k = x @ sfx"
  using assms
proof (induction cols arbitrary: k)
  case Nil
  then show ?case by simp
next
  case (Cons i cols)
  then have ih: "\<And>k'. fold (relabel sfx) cols k' = x @ sfx
       \<longleftrightarrow> (k' = x \<and> x \<in> set cols) \<or> k' = x @ sfx"
    by simp
  show ?case
  proof (cases "k = i")
    case True
    then have "fold (relabel sfx) (i # cols) k = fold (relabel sfx) cols (i @ sfx)"
      by (simp add: relabel_same)
    with ih [of "i @ sfx"] Cons.prems True show ?thesis by auto
  next
    case False
    then have "fold (relabel sfx) (i # cols) k = fold (relabel sfx) cols k"
      by (simp add: relabel_other)
    with ih [of k] False show ?thesis by auto
  qed
qed

lemma relabel_source:
  "fold (relabel sfx) cols k = x @ sfx \<Longrightarrow> k = x @ sfx \<or> x \<in> set cols"
proof (induction cols arbitrary: k)
  case Nil
  then show ?case by simp
next
  case (Cons i cols)
  show ?case
  proof (cases "k = i")
    case True
    with Cons.prems have "fold (relabel sfx) cols (i @ sfx) = x @ sfx"
      by (simp add: relabel_same)
    from Cons.IH [OF this] show ?thesis by auto
  next
    case False
    with Cons.prems have "fold (relabel sfx) cols k = x @ sfx"
      by (simp add: relabel_other)
    from Cons.IH [OF this] show ?thesis by auto
  qed
qed

lemma relabel_ends:
  assumes "k \<in> set cols"
  shows "suffix sfx (fold (relabel sfx) cols k)"
proof -
  obtain j where "fold (relabel sfx) cols k = k @ concat (replicate j sfx)" and "0 < j"
    using relabel_chain assms by blast
  moreover have "concat (replicate (Suc n) sfx) = concat (replicate n sfx) @ sfx" for n
    by (induction n) simp_all
  ultimately show ?thesis
    by (cases j) (auto simp: suffix_def simp del: replicate_Suc concat.simps)
qed


lemma relabel_moves:
  assumes "k \<in> set cols" and "sfx \<noteq> []"
  shows "fold (relabel sfx) cols k \<noteq> k"
proof -
  obtain j where j: "fold (relabel sfx) cols k = k @ concat (replicate j sfx)" and "0 < j"
    using relabel_chain assms(1) by blast
  then obtain j' where "j = Suc j'" by (cases j) auto
  with j assms(2) show ?thesis by simp
qed

lemma suffix_same_length: "suffix s (x @ t) \<Longrightarrow> length s = length t \<Longrightarrow> s = t"
  by (auto simp: suffix_def)

lemma selected_in_cols:
  "(k, c) \<in> set (concat (map (\<lambda>l. filter (\<lambda>(k, c). k = l) (data df)) cols)) \<Longrightarrow> k \<in> set cols"
  by auto

lemma part_label:
  assumes "(k, c) \<in> set (part sfx cols agg df buckets)"
  shows "\<exists>k0\<in>set cols. k = fold (relabel sfx) cols k0"
  using assms by (auto simp: part_def)

lemma part_label_ends: "(k, c) \<in> set (part sfx cols agg df buckets) \<Longrightarrow> suffix sfx k"
  using part_label relabel_ends by fastforce

lemma part_label_absent:
  assumes "(k, c) \<in> set (part sfx cols agg df buckets)" and "x \<notin> set cols" and "sfx \<noteq> []"
  shows "k \<noteq> x @ sfx"
proof
  assume kx: "k = x @ sfx"
  obtain k0 where k0: "k0 \<in> set cols" "k = fold (relabel sfx) cols k0"
    using part_label [OF assms(1)] by blast
  with kx relabel_source [of sfx cols k0 x] assms(2) have "k0 = x @ sfx" by auto
  with k0 kx relabel_moves [OF k0(1) assms(3)] show False by simp
qed

lemma filter_selected_own:
  assumes "filter (\<lambda>(k, c). k = x) (data df) = [(x, xs)]"
  shows "filter (\<lambda>(k, c). k = x) (concat (map (\<lambda>l. filter (\<lambda>(k, c). k = l) (data df)) cols))
           = replicate (count_list cols x) (x, xs)"
proof (induction cols)
  case Nil
  then show ?case by simp
next
  case (Cons i cols)
  have "filter (\<lambda>(k, c). k = x) (filter (\<lambda>(k, c). k = i) (data df))
          = (if i = x then [(x, xs)] else [])"
  proof (cases "i = x")
    case True
    then show ?thesis using assms by (simp add: case_prod_unfold)
  next
    case False
    then have "filter (\<lambda>(k, c). k = x) (filter (\<lambda>(k, c). k = i) (data df)) = []"
      by (auto simp: filter_empty_conv)
    with False show ?thesis by simp
  qed
  with Cons show ?case by simp
qed

lemma filter_part_own:
  assumes "filter (\<lambda>(k, c). k = x) (data df) = [(x, xs)]"
    and "count_list cols x = 1"
    and "x @ sfx \<notin> set cols" and "\<forall>c\<in>set cols. c @ sfx \<noteq> x"
  shows "filter (\<lambda>(k, c). k = x @ sfx) (part sfx cols agg df buckets)
           = [(x @ sfx, map (\<lambda>(b, p). agg (bucket_cells p (index df) xs)) buckets)]"
proof -
  let ?sel = "concat (map (\<lambda>l. filter (\<lambda>(k, c). k = l) (data df)) cols)"
  let ?g = "\<lambda>(k, c). (fold (relabel sfx) cols k,
                       map (\<lambda>(b, p). agg (bucket_cells p (index df) c)) buckets)"
  have hit: "fold (relabel sfx) cols k = x @ sfx \<longleftrightarrow> k = x" if "(k, c) \<in> set ?sel" for k c
  proof -
    from that have "k \<in> set cols" by (rule selected_in_cols)
    moreover from assms(2) have "x \<in> set cols"
      by (metis count_list_0_iff zero_neq_one)
    ultimately show ?thesis
      using relabel_hits [OF assms(3,4), of k] assms(3) by auto
  qed
  have "filter (\<lambda>(k, c). k = x @ sfx) (map ?g ?sel)
          = map ?g (filter (\<lambda>(k, c). fold (relabel sfx) cols k = x @ sfx) ?sel)"
    by (simp add: filter_map comp_def case_prod_unfold)
  also have "filter (\<lambda>(k, c). fold (relabel sfx) cols k = x @ sfx) ?sel
          = filter (\<lambda>(k, c). k = x) ?sel"
    by (rule filter_cong) (auto simp: hit)
  also have "\<dots> = [(x, xs)]"
    using filter_selected_own [OF assms(1), of cols] assms(2) by simp
  also have "map ?g [(x, xs)]
      = [(x @ sfx, map (\<lambda>(b, p). agg (bucket_cells p (index df) xs)) buckets)]"
  proof -
    from assms(2) have "x \<in> set cols"
      by (metis count_list_0_iff zero_neq_one)
    then have "fold (relabel sfx) cols x = x @ sfx"
      using assms(3) by (rule relabel_once)
    then show ?thesis by simp
  qed
  finally show ?thesis by (simp add: part_def)
qed

lemma filter_part_other:
  assumes "length sfx' = length sfx" and "sfx' \<noteq> sfx"
  shows "filter (\<lambda>(k, c). k = x @ sfx) (part sfx' cols agg df buckets) = []"
proof -
  have "k \<noteq> x @ sfx" if "(k, c) \<in> set (part sfx' cols agg df buckets)" for k c
    using part_label_ends [OF that] suffix_same_length [of sfx' x sfx] assms by auto
  then show ?thesis by (auto simp: filter_empty_conv)
qed


lemma appearances_part:
  assumes "sfx \<in> {''_sum'', ''_avg'', ''_min'', ''_max''}"
  shows "filter (\<lambda>k. k \<in> {x @ ''_sum'', x @ ''_avg'', x @ ''_min'', x @ ''_max''})
           (map fst (part sfx cols agg df buckets))
         = map fst (filter (\<lambda>(k, c). k = x @ sfx) (part sfx cols agg df buckets))"
proof -
  have "k \<in> {x @ ''_sum'', x @ ''_avg'', x @ ''_min'', x @ ''_max''} \<longleftrightarrow> k = x @ sfx"
    if "(k, c) \<in> set (part sfx cols agg df buckets)" for k c
  proof -
    have e: "suffix sfx k" using that by (rule part_label_ends)
    have "k = x @ t \<Longrightarrow> length sfx = length t \<Longrightarrow> sfx = t" for t
      using e suffix_same_length by blast
    with assms show ?thesis by auto
  qed
  then have "filter (\<lambda>(k, c). k \<in> {x @ ''_sum'', x @ ''_avg'', x @ ''_min'', x @ ''_max''})
               (part sfx cols agg df buckets)
           = filter (\<lambda>(k, c). k = x @ sfx) (part sfx cols agg df buckets)"
    by (intro filter_cong) auto
  then show ?thesis
    by (simp add: filter_map comp_def case_prod_unfold)
qed

lemma filter_part_unlisted:
  assumes "x \<notin> set cols" and "sfx \<noteq> []"
  shows "filter (\<lambda>(k, c). k = x @ sfx) (part sfx cols agg df buckets) = []"
proof -
  have "k \<noteq> x @ sfx" if "(k, c) \<in> set (part sfx cols agg df buckets)" for k c
    using that assms by (rule part_label_absent)
  then show ?thesis by (auto simp: filter_empty_conv)
qed

subsection \<open>The resampler over the aggregations of the library\<close>

text \<open>
  With aggregations that never raise, the resampler over the aggregations is the
  resampler over the reals.
\<close>

lemma comprehension_total: "comprehension (\<lambda>x. Inr (f x)) xs = Inr (map f xs)"
  by (induction xs) simp_all

lemma comprehension_Inr:
  "comprehension f xs = Inr ys \<Longrightarrow>
     ys = map (\<lambda>x. projr (f x)) xs \<and> (\<forall>x\<in>set xs. f x = Inr (projr (f x)))"
proof (induction xs arbitrary: ys)
  case Nil
  then show ?case by simp
next
  case (Cons x xs)
  from Cons.prems obtain y where y: "f x = Inr y"
    by (cases "f x") simp_all
  with Cons.prems obtain zs where zs: "comprehension f xs = Inr zs" and ys: "ys = y # zs"
    by (cases "comprehension f xs") auto
  from Cons.IH [OF zs] y ys show ?case by simp
qed

lemma resample_with_total: "resample_with freq (\<lambda>vs. Inr (agg vs)) df = resample freq agg df"
  by (simp add: resample_with_def resample_def comprehension_total case_prod_unfold
      split: sum.splits)

lemma try_body_with_total:
  "try_body_with (\<lambda>vs. Inr (agg_mean vs)) (\<lambda>vs. Inr (agg_min vs)) (\<lambda>vs. Inr (agg_max vs))
     freq avg_cols min_cols max_cols df_avg df_min df_max
   = try_body freq avg_cols min_cols max_cols df_avg df_min df_max"
  unfolding try_body_with_def try_body_def resample_with_total ..

lemma resample_ecoflux_met_with_total:
  "resample_ecoflux_met_with (\<lambda>vs. Inr (agg_sum vs)) (\<lambda>vs. Inr (agg_mean vs))
     (\<lambda>vs. Inr (agg_min vs)) (\<lambda>vs. Inr (agg_max vs)) df freq avg_cols min_cols max_cols sum_cols
   = resample_ecoflux_met df freq avg_cols min_cols max_cols sum_cols"
  unfolding resample_ecoflux_met_with_def resample_ecoflux_met_def resample_with_total
    try_body_with_total ..

lemma resample_with_Inr:
  assumes "resample_with freq agg df = Inr r"
  shows "\<exists>buckets. freq (index df) = Inr buckets
           \<and> resample freq (\<lambda>vs. projr (agg vs)) df = Inr r
           \<and> (\<forall>lc\<in>set (data df). \<forall>bp\<in>set buckets.
                 agg (bucket_cells (snd bp) (index df) (snd lc))
                   = Inr (projr (agg (bucket_cells (snd bp) (index df) (snd lc)))))"
proof -
  from assms obtain buckets where b: "freq (index df) = Inr buckets"
    by (cases "freq (index df)") (simp_all add: resample_with_def)
  let ?inner = "\<lambda>lc. comprehension (\<lambda>bp. agg (bucket_cells (snd bp) (index df) (snd lc))) buckets"
  let ?outer = "\<lambda>lc. case ?inner lc of Inl e \<Rightarrow> Inl e | Inr vs \<Rightarrow> Inr (fst lc, vs)"
  from assms b obtain cs where cs: "comprehension ?outer (data df) = Inr cs"
    and r: "r = \<lparr>index = map fst buckets, data = cs\<rparr>"
    by (cases "comprehension ?outer (data df)") (auto simp: resample_with_def)
  from comprehension_Inr [OF cs]
  have cs_eq: "cs = map (\<lambda>lc. projr (?outer lc)) (data df)"
    and ok: "\<forall>lc\<in>set (data df). ?outer lc = Inr (projr (?outer lc))"
    by simp_all
  have inner: "\<exists>vs. ?inner lc = Inr vs" if "lc \<in> set (data df)" for lc
    using ok that by (cases "?inner lc") force+
  have cell: "agg (bucket_cells (snd bp) (index df) (snd lc))
                = Inr (projr (agg (bucket_cells (snd bp) (index df) (snd lc))))"
    and col: "projr (?outer lc)
                = (fst lc, map (\<lambda>bp. projr (agg (bucket_cells (snd bp) (index df) (snd lc)))) buckets)"
    if "lc \<in> set (data df)" "bp \<in> set buckets" for lc bp
  proof -
    from inner [OF that(1)] obtain vs where vs: "?inner lc = Inr vs" by blast
    from comprehension_Inr [OF vs] that(2)
    show "agg (bucket_cells (snd bp) (index df) (snd lc))
                = Inr (projr (agg (bucket_cells (snd bp) (index df) (snd lc))))"
      by blast
    from comprehension_Inr [OF vs] vs
    show "projr (?outer lc)
            = (fst lc, map (\<lambda>bp. projr (agg (bucket_cells (snd bp) (index df) (snd lc)))) buckets)"
      by simp
  qed
  have col': "projr (?outer lc)
                = (fst lc, map (\<lambda>bp. projr (agg (bucket_cells (snd bp) (index df) (snd lc)))) buckets)"
    if "lc \<in> set (data df)" for lc
  proof -
    from inner [OF that] obtain vs where vs: "?inner lc = Inr vs" by blast
    from comprehension_Inr [OF vs] vs show ?thesis by simp
  qed
  have "cs = map (\<lambda>lc. (fst lc, map (\<lambda>bp. projr (agg (bucket_cells (snd bp) (index df) (snd lc)))) buckets))
               (data df)"
    unfolding cs_eq by (rule map_cong) (simp_all add: col')
  then have "resample freq (\<lambda>vs. projr (agg vs)) df = Inr r"
    by (simp add: resample_def b r case_prod_unfold)
  with b cell show ?thesis by blast
qed

text \<open>
  A call that returns without the fallback has the four parts of the aggregations, and
  each aggregation has returned a cell for every listed column and every bucket.
\<close>

lemma part_after_getitem_with:
  assumes "getitem_list df cols = Inr f" and "resample_with freq agg f = Inr r"
  shows "\<exists>buckets. freq (index df) = Inr buckets
           \<and> index (rename_loop sfx cols r) = map fst buckets
           \<and> data (rename_loop sfx cols r) = part sfx cols (\<lambda>vs. projr (agg vs)) df buckets
           \<and> (\<forall>x xs. x \<in> set cols \<longrightarrow> (x, xs) \<in> set (data df) \<longrightarrow>
                 map (\<lambda>(b, p). agg (bucket_cells p (index df) xs)) buckets
                   = map Inr (map (\<lambda>(b, p). projr (agg (bucket_cells p (index df) xs))) buckets))"
proof -
  from getitem_list_Inr [OF assms(1)]
  have ix: "index f = index df"
    and d: "data f = concat (map (\<lambda>l. filter (\<lambda>(k, c). k = l) (data df)) cols)"
    by simp_all
  from resample_with_Inr [OF assms(2)] obtain buckets where
    b: "freq (index f) = Inr buckets"
    and r: "resample freq (\<lambda>vs. projr (agg vs)) f = Inr r"
    and ok: "\<forall>lc\<in>set (data f). \<forall>bp\<in>set buckets.
               agg (bucket_cells (snd bp) (index f) (snd lc))
                 = Inr (projr (agg (bucket_cells (snd bp) (index f) (snd lc))))"
    by blast
  from b ix have b': "freq (index df) = Inr buckets" by simp
  from part_after_getitem [where freq = freq, OF assms(1) b', of "\<lambda>vs. projr (agg vs)" sfx] r
  have "index (rename_loop sfx cols r) = map fst buckets"
    and "data (rename_loop sfx cols r) = part sfx cols (\<lambda>vs. projr (agg vs)) df buckets"
    by simp_all
  moreover have "map (\<lambda>(b, p). agg (bucket_cells p (index df) xs)) buckets
      = map Inr (map (\<lambda>(b, p). projr (agg (bucket_cells p (index df) xs))) buckets)"
    if "x \<in> set cols" "(x, xs) \<in> set (data df)" for x xs
  proof -
    from that have "(x, xs) \<in> set (data f)" by (auto simp: d)
    with ok ix have "\<forall>bp\<in>set buckets. agg (bucket_cells (snd bp) (index df) xs)
        = Inr (projr (agg (bucket_cells (snd bp) (index df) xs)))"
      by fastforce
    then show ?thesis by (simp add: case_prod_unfold)
  qed
  ultimately show ?thesis using b' by blast
qed

lemma resample_ecoflux_met_with_returns:
  assumes "resample_ecoflux_met_with sum_agg mean_agg min_agg max_agg df freq
             avg_cols min_cols max_cols sum_cols = Inr out"
    and "\<not> fallback_taken mean_agg min_agg max_agg df freq avg_cols min_cols max_cols"
  shows "\<exists>buckets. freq (index df) = Inr buckets
           \<and> data out = part ''_sum'' sum_cols (\<lambda>vs. projr (sum_agg vs)) df buckets
                        @ part ''_avg'' avg_cols (\<lambda>vs. projr (mean_agg vs)) df buckets
                        @ part ''_min'' min_cols (\<lambda>vs. projr (min_agg vs)) df buckets
                        @ part ''_max'' max_cols (\<lambda>vs. projr (max_agg vs)) df buckets
           \<and> (\<forall>x xs. x \<in> set sum_cols \<longrightarrow> (x, xs) \<in> set (data df) \<longrightarrow>
                 map (\<lambda>(b, p). sum_agg (bucket_cells p (index df) xs)) buckets
                   = map Inr (map (\<lambda>(b, p). projr (sum_agg (bucket_cells p (index df) xs))) buckets))
           \<and> (\<forall>x xs. x \<in> set avg_cols \<longrightarrow> (x, xs) \<in> set (data df) \<longrightarrow>
                 map (\<lambda>(b, p). mean_agg (bucket_cells p (index df) xs)) buckets
                   = map Inr (map (\<lambda>(b, p). projr (mean_agg (bucket_cells p (index df) xs))) buckets))"
proof -
  note ret = assms(1)
  from ret obtain df_sum where s: "getitem_list df sum_cols = Inr df_sum"
    by (cases "getitem_list df sum_cols") (simp_all add: resample_ecoflux_met_with_def)
  from ret s obtain df_avg where a: "getitem_list df avg_cols = Inr df_avg"
    by (cases "getitem_list df avg_cols") (simp_all add: resample_ecoflux_met_with_def)
  from ret s a obtain df_min where mi: "getitem_list df min_cols = Inr df_min"
    by (cases "getitem_list df min_cols") (simp_all add: resample_ecoflux_met_with_def)
  from ret s a mi obtain df_max where ma: "getitem_list df max_cols = Inr df_max"
    by (cases "getitem_list df max_cols") (simp_all add: resample_ecoflux_met_with_def)
  from ret s a mi ma obtain rs where rs: "resample_with freq sum_agg df_sum = Inr rs"
    by (cases "resample_with freq sum_agg df_sum") (simp_all add: resample_ecoflux_met_with_def)
  from assms(2) a mi ma obtain t where
    t: "try_body_with mean_agg min_agg max_agg freq avg_cols min_cols max_cols df_avg df_min df_max
          = Inr t"
    by (cases "try_body_with mean_agg min_agg max_agg freq avg_cols min_cols max_cols
                 df_avg df_min df_max") (simp_all add: fallback_taken_def)
  from t obtain ra where ra: "resample_with freq mean_agg df_avg = Inr ra"
    by (cases "resample_with freq mean_agg df_avg") (simp_all add: try_body_with_def)
  from t ra obtain rmi where rmi: "resample_with freq min_agg df_min = Inr rmi"
    by (cases "resample_with freq min_agg df_min") (simp_all add: try_body_with_def)
  from t ra rmi obtain rma where rma: "resample_with freq max_agg df_max = Inr rma"
    by (cases "resample_with freq max_agg df_max") (simp_all add: try_body_with_def)
  from t ra rmi rma have t_eq: "t = (rename_loop ''_avg'' avg_cols ra,
      rename_loop ''_min'' min_cols rmi, rename_loop ''_max'' max_cols rma)"
    by (simp add: try_body_with_def)
  from part_after_getitem_with [OF s rs, of "''_sum''"] obtain buckets where
    b: "freq (index df) = Inr buckets"
    and ds: "data (rename_loop ''_sum'' sum_cols rs)
               = part ''_sum'' sum_cols (\<lambda>vs. projr (sum_agg vs)) df buckets"
    and oks: "\<forall>x xs. x \<in> set sum_cols \<longrightarrow> (x, xs) \<in> set (data df) \<longrightarrow>
                 map (\<lambda>(b, p). sum_agg (bucket_cells p (index df) xs)) buckets
                   = map Inr (map (\<lambda>(b, p). projr (sum_agg (bucket_cells p (index df) xs))) buckets)"
    by blast
  from part_after_getitem_with [OF a ra, of "''_avg''"] b
  have da: "data (rename_loop ''_avg'' avg_cols ra)
               = part ''_avg'' avg_cols (\<lambda>vs. projr (mean_agg vs)) df buckets"
    and oka: "\<forall>x xs. x \<in> set avg_cols \<longrightarrow> (x, xs) \<in> set (data df) \<longrightarrow>
                 map (\<lambda>(b, p). mean_agg (bucket_cells p (index df) xs)) buckets
                   = map Inr (map (\<lambda>(b, p). projr (mean_agg (bucket_cells p (index df) xs))) buckets)"
    by auto
  from part_after_getitem_with [OF mi rmi, of "''_min''"] b
  have dmi: "data (rename_loop ''_min'' min_cols rmi)
               = part ''_min'' min_cols (\<lambda>vs. projr (min_agg vs)) df buckets"
    by auto
  from part_after_getitem_with [OF ma rma, of "''_max''"] b
  have dma: "data (rename_loop ''_max'' max_cols rma)
               = part ''_max'' max_cols (\<lambda>vs. projr (max_agg vs)) df buckets"
    by auto
  have "out = concat_axis1 [rename_loop ''_sum'' sum_cols rs, rename_loop ''_avg'' avg_cols ra,
      rename_loop ''_min'' min_cols rmi, rename_loop ''_max'' max_cols rma]"
    using ret by (simp add: resample_ecoflux_met_with_def s a mi ma rs t t_eq)
  then have "data out = part ''_sum'' sum_cols (\<lambda>vs. projr (sum_agg vs)) df buckets
                        @ part ''_avg'' avg_cols (\<lambda>vs. projr (mean_agg vs)) df buckets
                        @ part ''_min'' min_cols (\<lambda>vs. projr (min_agg vs)) df buckets
                        @ part ''_max'' max_cols (\<lambda>vs. projr (max_agg vs)) df buckets"
    by (simp add: concat_axis1_def ds da dmi dma)
  with b oks oka show ?thesis by blast
qed

text \<open>
  Claim C5, amended. Let a column \<open>x\<close> occur once in the table, once in \<open>sum_cols\<close> and
  once in \<open>avg_cols\<close>, and let neither list hold \<open>x\<close> with its suffix appended or a
  label that gives \<open>x\<close> when the suffix is appended. When the call returns without
  taking the fallback, the result has exactly one column \<open>x_sum\<close>, whose cell in each
  bucket is what the sum aggregation returns on the cells of \<open>x\<close> in that bucket, and
  exactly one column \<open>x_avg\<close>, whose cell in each bucket is what the mean aggregation
  returns on the same cells; when \<open>x\<close> is in neither \<open>min_cols\<close> nor \<open>max_cols\<close> these
  two are all the columns of \<open>x\<close> in the result. This holds for every sum and mean
  aggregation, so for the floating-point ones of the library.
\<close>

theorem column_in_sum_and_avg:
  assumes "resample_ecoflux_met_with sum_agg mean_agg min_agg max_agg df freq
             avg_cols min_cols max_cols sum_cols = Inr out"
    and "\<not> fallback_taken mean_agg min_agg max_agg df freq avg_cols min_cols max_cols"
    and "filter (\<lambda>(k, c). k = x) (data df) = [(x, xs)]"
    and "count_list sum_cols x = 1" and "count_list avg_cols x = 1"
    and "x @ ''_sum'' \<notin> set sum_cols" and "\<forall>c\<in>set sum_cols. c @ ''_sum'' \<noteq> x"
    and "x @ ''_avg'' \<notin> set avg_cols" and "\<forall>c\<in>set avg_cols. c @ ''_avg'' \<noteq> x"
  shows "\<exists>buckets sum_cells avg_cells. freq (index df) = Inr buckets
    \<and> filter (\<lambda>(k, c). k = x @ ''_sum'') (data out) = [(x @ ''_sum'', sum_cells)]
    \<and> map (\<lambda>(b, p). sum_agg (bucket_cells p (index df) xs)) buckets = map Inr sum_cells
    \<and> filter (\<lambda>(k, c). k = x @ ''_avg'') (data out) = [(x @ ''_avg'', avg_cells)]
    \<and> map (\<lambda>(b, p). mean_agg (bucket_cells p (index df) xs)) buckets = map Inr avg_cells
    \<and> (x \<notin> set min_cols \<and> x \<notin> set max_cols \<longrightarrow>
         appearances x out = [x @ ''_sum'', x @ ''_avg''])"
proof -
  from resample_ecoflux_met_with_returns [OF assms(1,2)] obtain buckets where
    b: "freq (index df) = Inr buckets"
    and d: "data out = part ''_sum'' sum_cols (\<lambda>vs. projr (sum_agg vs)) df buckets
                        @ part ''_avg'' avg_cols (\<lambda>vs. projr (mean_agg vs)) df buckets
                        @ part ''_min'' min_cols (\<lambda>vs. projr (min_agg vs)) df buckets
                        @ part ''_max'' max_cols (\<lambda>vs. projr (max_agg vs)) df buckets"
    and oks: "\<forall>x xs. x \<in> set sum_cols \<longrightarrow> (x, xs) \<in> set (data df) \<longrightarrow>
                 map (\<lambda>(b, p). sum_agg (bucket_cells p (index df) xs)) buckets
                   = map Inr (map (\<lambda>(b, p). projr (sum_agg (bucket_cells p (index df) xs))) buckets)"
    and oka: "\<forall>x xs. x \<in> set avg_cols \<longrightarrow> (x, xs) \<in> set (data df) \<longrightarrow>
                 map (\<lambda>(b, p). mean_agg (bucket_cells p (index df) xs)) buckets
                   = map Inr (map (\<lambda>(b, p). projr (mean_agg (bucket_cells p (index df) xs))) buckets)"
    by blast
  let ?ps = "part ''_sum'' sum_cols (\<lambda>vs. projr (sum_agg vs)) df buckets"
  let ?pa = "part ''_avg'' avg_cols (\<lambda>vs. projr (mean_agg vs)) df buckets"
  let ?pmi = "part ''_min'' min_cols (\<lambda>vs. projr (min_agg vs)) df buckets"
  let ?pma = "part ''_max'' max_cols (\<lambda>vs. projr (max_agg vs)) df buckets"
  let ?sc = "map (\<lambda>(b, p). projr (sum_agg (bucket_cells p (index df) xs))) buckets"
  let ?ac = "map (\<lambda>(b, p). projr (mean_agg (bucket_cells p (index df) xs))) buckets"
  have in_df: "(x, xs) \<in> set (data df)"
  proof -
    have "(x, xs) \<in> set (filter (\<lambda>(k, c). k = x) (data df))" by (simp add: assms(3))
    then show ?thesis by simp
  qed
  have in_sum: "x \<in> set sum_cols" using assms(4) by (metis count_list_0_iff zero_neq_one)
  have in_avg: "x \<in> set avg_cols" using assms(5) by (metis count_list_0_iff zero_neq_one)
  have s_own: "filter (\<lambda>(k, c). k = x @ ''_sum'') ?ps = [(x @ ''_sum'', ?sc)]"
    using assms(3,4,6,7) by (rule filter_part_own)
  have a_own: "filter (\<lambda>(k, c). k = x @ ''_avg'') ?pa = [(x @ ''_avg'', ?ac)]"
    using assms(3,5,8,9) by (rule filter_part_own)
  have s_other: "filter (\<lambda>(k, c). k = x @ ''_sum'') ?pa = []"
    "filter (\<lambda>(k, c). k = x @ ''_sum'') ?pmi = []"
    "filter (\<lambda>(k, c). k = x @ ''_sum'') ?pma = []"
    by (simp_all add: filter_part_other)
  have a_other: "filter (\<lambda>(k, c). k = x @ ''_avg'') ?ps = []"
    "filter (\<lambda>(k, c). k = x @ ''_avg'') ?pmi = []"
    "filter (\<lambda>(k, c). k = x @ ''_avg'') ?pma = []"
    by (simp_all add: filter_part_other)
  have sum_col: "filter (\<lambda>(k, c). k = x @ ''_sum'') (data out) = [(x @ ''_sum'', ?sc)]"
    by (simp only: d filter_append s_own s_other append_Nil2)
  have avg_col: "filter (\<lambda>(k, c). k = x @ ''_avg'') (data out) = [(x @ ''_avg'', ?ac)]"
    by (simp only: d filter_append a_own a_other append_Nil2 append_Nil)
  have sum_val: "map (\<lambda>(b, p). sum_agg (bucket_cells p (index df) xs)) buckets = map Inr ?sc"
    using oks in_sum in_df by blast
  have avg_val: "map (\<lambda>(b, p). mean_agg (bucket_cells p (index df) xs)) buckets = map Inr ?ac"
    using oka in_avg in_df by blast
  have twice: "appearances x out = [x @ ''_sum'', x @ ''_avg'']"
    if "x \<notin> set min_cols" and "x \<notin> set max_cols"
  proof -
    let ?four = "\<lambda>k. k \<in> {x @ ''_sum'', x @ ''_avg'', x @ ''_min'', x @ ''_max''}"
    have mi: "filter (\<lambda>(k, c). k = x @ ''_min'') ?pmi = []"
      using that(1) by (simp add: filter_part_unlisted)
    have ma: "filter (\<lambda>(k, c). k = x @ ''_max'') ?pma = []"
      using that(2) by (simp add: filter_part_unlisted)
    have 1: "filter ?four (map fst ?ps) = [x @ ''_sum'']"
      by (subst appearances_part) (simp_all add: s_own)
    have 2: "filter ?four (map fst ?pa) = [x @ ''_avg'']"
      by (subst appearances_part) (simp_all add: a_own)
    have 3: "filter ?four (map fst ?pmi) = []"
      by (subst appearances_part) (simp_all add: mi)
    have 4: "filter ?four (map fst ?pma) = []"
      by (subst appearances_part) (simp_all add: ma)
    have "appearances x out
        = filter ?four (map fst ?ps) @ filter ?four (map fst ?pa)
          @ filter ?four (map fst ?pmi) @ filter ?four (map fst ?pma)"
      by (simp only: appearances_def columns_def d map_append filter_append)
    then show ?thesis by (simp only: 1 2 3 4) simp
  qed
  show ?thesis
  proof (intro exI conjI)
    show "freq (index df) = Inr buckets" by (rule b)
    show "filter (\<lambda>(k, c). k = x @ ''_sum'') (data out) = [(x @ ''_sum'', ?sc)]"
      by (rule sum_col)
    show "map (\<lambda>(b, p). sum_agg (bucket_cells p (index df) xs)) buckets = map Inr ?sc"
      by (rule sum_val)
    show "filter (\<lambda>(k, c). k = x @ ''_avg'') (data out) = [(x @ ''_avg'', ?ac)]"
      by (rule avg_col)
    show "map (\<lambda>(b, p). mean_agg (bucket_cells p (index df) xs)) buckets = map Inr ?ac"
      by (rule avg_val)
    show "x \<notin> set min_cols \<and> x \<notin> set max_cols \<longrightarrow>
            appearances x out = [x @ ''_sum'', x @ ''_avg'']"
      using twice by blast
  qed
qed

subsection \<open>Evaluation on concrete tables\<close>

lemmas eval_resample = resample_ecoflux_met_def getitem_list_def columns_def resample_def
  try_body_def rename_loop_def rename_columns_def relabel_def concat_axis1_def daily_def
  bucket_cells_def agg_sum_def agg_mean_def agg_min_def agg_max_def empty_frame_def
  upto_rec1

text \<open>
  Claim C5 as stated fails: a column listed in \<open>sum_cols\<close>, \<open>avg_cols\<close> and \<open>min_cols\<close>
  is in the result three times.
\<close>

theorem three_appearances:
  "resample_ecoflux_met
     \<lparr>index = [0, 1, 48], data = [(''TA_F'', [Some 1, Some 3, Some 5])]\<rparr> daily
     [''TA_F''] [''TA_F''] [] [''TA_F'']
   = Inr \<lparr>index = [0, 48],
          data = [(''TA_F_sum'', [Some 4, Some 5]), (''TA_F_avg'', [Some 2, Some 5]),
                  (''TA_F_min'', [Some 1, Some 5])]\<rparr>
   \<and> appearances ''TA_F''
        \<lparr>index = [0::int, 48],
         data = [(''TA_F_sum'', [Some 4, Some 5]), (''TA_F_avg'', [Some 2, Some 5]),
                 (''TA_F_min'', [Some (1::real), Some 5])]\<rparr>
      = [''TA_F_sum'', ''TA_F_avg'', ''TA_F_min'']"
  by (simp add: eval_resample appearances_def)

lemmas eval_resample_with = resample_ecoflux_met_with_def resample_with_def try_body_with_def
  fallback_taken_def getitem_list_def columns_def rename_loop_def rename_columns_def relabel_def
  concat_axis1_def daily_def bucket_cells_def agg_sum_def agg_mean_def agg_min_def agg_max_def
  empty_frame_def upto_rec1

text \<open>
  A table with two columns over two days; \<open>TA_F\<close> is summed and averaged, with the
  aggregates over the reals.
\<close>

theorem column_in_sum_and_avg_witness:
  "resample_ecoflux_met_with (\<lambda>vs. Inr (agg_sum vs)) (\<lambda>vs. Inr (agg_mean vs))
     (\<lambda>vs. Inr (agg_min vs)) (\<lambda>vs. Inr (agg_max vs))
     \<lparr>index = [0, 1, 48], data = [(''P_F'', [Some 1, Some 1, Some 1]),
                                  (''TA_F'', [Some 1, Some 3, Some 5])]\<rparr> daily
     [''TA_F''] [] [] [''P_F'', ''TA_F'']
   = Inr \<lparr>index = [0, 48],
          data = [(''P_F_sum'', [Some 2, Some 1]), (''TA_F_sum'', [Some 4, Some 5]),
                  (''TA_F_avg'', [Some 2, Some 5])]\<rparr>
   \<and> \<not> fallback_taken (\<lambda>vs. Inr (agg_mean vs)) (\<lambda>vs. Inr (agg_min vs)) (\<lambda>vs. Inr (agg_max vs))
         \<lparr>index = [0, 1, 48], data = [(''P_F'', [Some 1, Some 1, Some 1]),
                                      (''TA_F'', [Some 1, Some 3, Some 5])]\<rparr> daily
         [''TA_F''] [] []
   \<and> (\<exists>buckets. daily [0, 1, 48] = Inr buckets
       \<and> map (\<lambda>(b, p). agg_sum (bucket_cells p [0, 1, 48] [Some 1, Some 3, Some 5])) buckets
           = [Some 4, Some 5]
       \<and> map (\<lambda>(b, p). agg_mean (bucket_cells p [0, 1, 48] [Some 1, Some 3, Some 5])) buckets
           = [Some 2, Some 5]
       \<and> appearances ''TA_F''
            \<lparr>index = [0::int, 48],
             data = [(''P_F_sum'', [Some 2, Some 1]), (''TA_F_sum'', [Some 4, Some 5]),
                     (''TA_F_avg'', [Some (2::real), Some 5])]\<rparr>
          = [''TA_F_sum'', ''TA_F_avg''])"
proof -
  let ?df = "\<lparr>index = [0::int, 1, 48], data = [(''P_F'', [Some 1, Some 1, Some 1]),
                                  (''TA_F'', [Some 1, Some 3, Some (5::real)])]\<rparr>"
  let ?out = "\<lparr>index = [0::int, 48],
          data = [(''P_F_sum'', [Some 2, Some 1]), (''TA_F_sum'', [Some 4, Some 5]),
                  (''TA_F_avg'', [Some (2::real), Some 5])]\<rparr>"
  have ret: "resample_ecoflux_met_with (\<lambda>vs. Inr (agg_sum vs)) (\<lambda>vs. Inr (agg_mean vs))
               (\<lambda>vs. Inr (agg_min vs)) (\<lambda>vs. Inr (agg_max vs)) ?df daily
               [''TA_F''] [] [] [''P_F'', ''TA_F''] = Inr ?out"
    by (simp add: eval_resample_with)
  have nofb: "\<not> fallback_taken (\<lambda>vs. Inr (agg_mean vs)) (\<lambda>vs. Inr (agg_min vs))
                  (\<lambda>vs. Inr (agg_max vs)) ?df daily [''TA_F''] [] []"
    by (simp add: eval_resample_with)
  have once: "filter (\<lambda>(k, c). k = ''TA_F'') (data ?df) = [(''TA_F'', [Some 1, Some 3, Some 5])]"
    by simp
  have "\<exists>buckets sum_cells avg_cells. daily (index ?df) = Inr buckets
    \<and> filter (\<lambda>(k, c). k = ''TA_F'' @ ''_sum'') (data ?out) = [(''TA_F'' @ ''_sum'', sum_cells)]
    \<and> map (\<lambda>(b, p). Inr (agg_sum (bucket_cells p (index ?df) [Some 1, Some 3, Some 5]))) buckets
        = map (Inr :: num \<Rightarrow> error + num) sum_cells
    \<and> filter (\<lambda>(k, c). k = ''TA_F'' @ ''_avg'') (data ?out) = [(''TA_F'' @ ''_avg'', avg_cells)]
    \<and> map (\<lambda>(b, p). Inr (agg_mean (bucket_cells p (index ?df) [Some 1, Some 3, Some 5]))) buckets
        = map (Inr :: num \<Rightarrow> error + num) avg_cells
    \<and> (''TA_F'' \<notin> set [] \<and> ''TA_F'' \<notin> set [] \<longrightarrow>
         appearances ''TA_F'' ?out = [''TA_F'' @ ''_sum'', ''TA_F'' @ ''_avg''])"
    by (rule column_in_sum_and_avg [OF ret nofb once]) simp_all
  then obtain buckets sum_cells avg_cells where b: "daily [0, 1, 48] = Inr buckets"
    and sc: "sum_cells = [Some 4, Some 5]"
    and s: "map (\<lambda>(b, p). Inr (agg_sum (bucket_cells p [0, 1, 48] [Some 1, Some 3, Some 5]))) buckets
        = map (Inr :: num \<Rightarrow> error + num) sum_cells"
    and ac: "avg_cells = [Some 2, Some 5]"
    and a: "map (\<lambda>(b, p). Inr (agg_mean (bucket_cells p [0, 1, 48] [Some 1, Some 3, Some 5]))) buckets
        = map (Inr :: num \<Rightarrow> error + num) avg_cells"
    and t: "appearances ''TA_F'' ?out = [''TA_F_sum'', ''TA_F_avg'']"
    by auto
  have inj: "map (\<lambda>bp. Inr (f bp)) bs = map (Inr :: num \<Rightarrow> error + num) cs \<Longrightarrow> map f bs = cs"
    for f :: "int \<times> (int \<Rightarrow> bool) \<Rightarrow> num" and bs cs
  proof -
    assume "map (\<lambda>bp. Inr (f bp)) bs = map (Inr :: num \<Rightarrow> error + num) cs"
    then have "map (Inr :: num \<Rightarrow> error + num) (map f bs) = map Inr cs" by (simp add: comp_def)
    then show "map f bs = cs" using inj_map_eq_map [OF inj_Inr] by blast
  qed
  from s sc have s': "map (\<lambda>(b, p). agg_sum (bucket_cells p [0, 1, 48] [Some 1, Some 3, Some 5])) buckets
        = [Some 4, Some 5]"
    using inj [of "\<lambda>(b, p). agg_sum (bucket_cells p [0, 1, 48] [Some 1, Some 3, Some 5])" buckets sum_cells]
    by (simp add: case_prod_unfold)
  from a ac have a': "map (\<lambda>(b, p). agg_mean (bucket_cells p [0, 1, 48] [Some 1, Some 3, Some 5])) buckets
        = [Some 2, Some 5]"
    using inj [of "\<lambda>(b, p). agg_mean (bucket_cells p [0, 1, 48] [Some 1, Some 3, Some 5])" buckets avg_cells]
    by (simp add: case_prod_unfold)
  show ?thesis
  proof (intro conjI exI)
    show "resample_ecoflux_met_with (\<lambda>vs. Inr (agg_sum vs)) (\<lambda>vs. Inr (agg_mean vs))
               (\<lambda>vs. Inr (agg_min vs)) (\<lambda>vs. Inr (agg_max vs)) ?df daily
               [''TA_F''] [] [] [''P_F'', ''TA_F''] = Inr ?out"
      by (rule ret)
    show "\<not> fallback_taken (\<lambda>vs. Inr (agg_mean vs)) (\<lambda>vs. Inr (agg_min vs))
                  (\<lambda>vs. Inr (agg_max vs)) ?df daily [''TA_F''] [] []"
      by (rule nofb)
    show "daily [0, 1, 48] = Inr buckets" by (rule b)
  qed (rule s' a' t)+
qed

text \<open>
  With a mean that raises, the same call with \<open>P_F\<close> in \<open>min_cols\<close> takes the fallback
  and returns the two sums only: \<open>TA_F\<close> is in the result once.
\<close>

lemma fallback_drops_average:
  "resample_ecoflux_met_with (\<lambda>vs. Inr (agg_sum vs)) (\<lambda>vs. Inl TypeError)
     (\<lambda>vs. Inr (agg_min vs)) (\<lambda>vs. Inr (agg_max vs))
     \<lparr>index = [0, 1, 48], data = [(''P_F'', [Some 1, Some 1, Some 1]),
                                  (''TA_F'', [Some 1, Some 3, Some 5])]\<rparr> daily
     [''TA_F''] [''P_F''] [] [''P_F'', ''TA_F'']
   = Inr \<lparr>index = [0, 48],
          data = [(''P_F_sum'', [Some 2, Some 1]), (''TA_F_sum'', [Some 4, Some 5])]\<rparr>
   \<and> fallback_taken (\<lambda>vs. Inl TypeError) (\<lambda>vs. Inr (agg_min vs)) (\<lambda>vs. Inr (agg_max vs))
         \<lparr>index = [0, 1, 48], data = [(''P_F'', [Some 1, Some 1, Some 1]),
                                      (''TA_F'', [Some 1, Some 3, Some 5])]\<rparr> daily
         [''TA_F''] [''P_F''] []"
  by (simp add: eval_resample_with)

text \<open>A table with two columns; one is summed, the other averaged and minimised.\<close>

theorem output_columns_carry_suffix_witness:
  "resample_ecoflux_met
     \<lparr>index = [0, 1, 48], data = [(''P_F'', [Some 1, Some 1, Some 1]),
                                  (''TA_F'', [Some 1, Some 3, Some 5])]\<rparr> daily
     [''TA_F''] [''TA_F''] [] [''P_F'']
   = Inr \<lparr>index = [0, 48],
          data = [(''P_F_sum'', [Some 2, Some 1]), (''TA_F_avg'', [Some 2, Some 5]),
                  (''TA_F_min'', [Some 1, Some 5])]\<rparr>
   \<and> (\<exists>s a mi ma. [''P_F_sum'', ''TA_F_avg'', ''TA_F_min''] = s @ a @ mi @ ma
        \<and> list_all2 (carries ''_sum'' [''P_F'']) [''P_F''] s
        \<and> list_all2 (carries ''_avg'' [''TA_F'']) [''TA_F''] a
        \<and> list_all2 (carries ''_min'' [''TA_F'']) [''TA_F''] mi
        \<and> list_all2 (carries ''_max'' []) [] ma)"
proof -
  let ?df = "\<lparr>index = [0::int, 1, 48], data = [(''P_F'', [Some 1, Some 1, Some 1]),
                                  (''TA_F'', [Some 1, Some 3, Some (5::real)])]\<rparr>"
  let ?out = "\<lparr>index = [0::int, 48],
          data = [(''P_F_sum'', [Some 2, Some 1]), (''TA_F_avg'', [Some 2, Some 5]),
                  (''TA_F_min'', [Some (1::real), Some 5])]\<rparr>"
  have ret: "resample_ecoflux_met ?df daily [''TA_F''] [''TA_F''] [] [''P_F''] = Inr ?out"
    by (simp add: eval_resample)
  from output_columns_carry_suffix [OF ret] obtain s a mi ma where
    c: "columns ?out = s @ a @ mi @ ma"
    and "list_all2 (carries ''_sum'' [''P_F'']) (selected ?df [''P_F'']) s"
    and "list_all2 (carries ''_avg'' [''TA_F'']) (selected ?df [''TA_F'']) a"
    and "list_all2 (carries ''_min'' [''TA_F'']) (selected ?df [''TA_F'']) mi"
    and "list_all2 (carries ''_max'' []) (selected ?df []) ma"
    by blast
  then have l: "list_all2 (carries ''_sum'' [''P_F'']) [''P_F''] s"
    "list_all2 (carries ''_avg'' [''TA_F'']) [''TA_F''] a"
    "list_all2 (carries ''_min'' [''TA_F'']) [''TA_F''] mi"
    "list_all2 (carries ''_max'' []) [] ma"
    by (simp_all add: selected_def columns_def)
  from c have c': "[''P_F_sum'', ''TA_F_avg'', ''TA_F_min''] = s @ a @ mi @ ma"
    by (simp add: columns_def)
  show ?thesis
  proof (intro conjI exI)
    show "resample_ecoflux_met ?df daily [''TA_F''] [''TA_F''] [] [''P_F''] = Inr ?out"
      by (rule ret)
    show "[''P_F_sum'', ''TA_F_avg'', ''TA_F_min''] = s @ a @ mi @ ma" by (rule c')
  qed (rule l)+
qed

text \<open>
  The renaming loop works on the labels that its earlier turns have left: with \<open>X\<close> and
  \<open>X_avg\<close> both in the list, the first turn renames \<open>X\<close> to \<open>X_avg\<close> and the second
  renames both columns to \<open>X_avg_avg\<close>.
\<close>

lemma rename_loop_chain:
  "rename_loop ''_avg'' [''X'', ''X_avg'']
     \<lparr>index = [0::nat], data = [(''X'', [Some (1::real)]), (''X_avg'', [Some 2])]\<rparr>
   = \<lparr>index = [0], data = [(''X_avg_avg'', [Some 1]), (''X_avg_avg'', [Some 2])]\<rparr>"
  by (simp add: rename_loop_def rename_columns_def relabel_def)

end
